theory Spec2Isabelle
  imports Complex_Main
begin

section \<open>JavaScript values and strings\<close>

text \<open>
  The values the scraper stores in its records: \<open>undefined\<close>, \<open>null\<close> and strings.
  \<open>truthy\<close> is JavaScript's conversion to a boolean on these values.
\<close>

datatype jsval = Undefined | Null | Str string

fun truthy :: "jsval \<Rightarrow> bool" where
  "truthy Undefined = False"
| "truthy Null = False"
| "truthy (Str s) = (s \<noteq> [])"

text \<open>The faults the engine lets through: its own \<open>TypeError\<close>s on \<open>null\<close> and
  \<open>undefined\<close>, the \<open>TypeError\<close> of the \<open>URL\<close> constructor, and the \<open>SyntaxError\<close> of a
  selector query.\<close>

datatype fault = TypeError | SyntaxError

definition bind_fault :: "fault + 'a \<Rightarrow> ('a \<Rightarrow> fault + 'b) \<Rightarrow> fault + 'b" where
  "bind_fault m f = (case m of Inl e \<Rightarrow> Inl e | Inr x \<Rightarrow> f x)"

text \<open>\<open>map\<close> and a loop over a list, ended by the first fault.\<close>

fun map_fault :: "('a \<Rightarrow> fault + 'b) \<Rightarrow> 'a list \<Rightarrow> fault + 'b list" where
  "map_fault f [] = Inr []"
| "map_fault f (x # xs) =
     (case f x of
        Inl e \<Rightarrow> Inl e
      | Inr y \<Rightarrow> (case map_fault f xs of Inl e \<Rightarrow> Inl e | Inr ys \<Rightarrow> Inr (y # ys)))"

fun fold_fault :: "('a \<Rightarrow> 'b \<Rightarrow> fault + 'b) \<Rightarrow> 'a list \<Rightarrow> 'b \<Rightarrow> fault + 'b" where
  "fold_fault f [] acc = Inr acc"
| "fold_fault f (x # xs) acc =
     (case f x acc of Inl e \<Rightarrow> Inl e | Inr acc' \<Rightarrow> fold_fault f xs acc')"

text \<open>An object literal, in insertion order of its keys.\<close>

type_synonym obj = "(string \<times> jsval) list"

text \<open>\<open>o[k] = v\<close>: an existing key keeps its place, a new key goes last.\<close>

fun obj_set :: "obj \<Rightarrow> string \<Rightarrow> jsval \<Rightarrow> obj" where
  "obj_set [] k v = [(k, v)]"
| "obj_set ((k', v') # kvs) k v =
     (if k' = k then (k, v) # kvs else (k', v') # obj_set kvs k v)"

text \<open>The spread \<open>{...a, ...b}\<close>.\<close>

definition obj_spread :: "obj \<Rightarrow> obj \<Rightarrow> obj" where
  "obj_spread a b = fold (\<lambda>(k, v) acc. obj_set acc k v) b a"

text \<open>
  \<open>String.prototype.trim\<close>. A string is a list of code units below 256; of these,
  \<open>trim\<close> strips the white space U+0009, U+000B, U+000C, U+0020 and U+00A0 and the
  line terminators U+000A and U+000D.
\<close>

definition is_space :: "char \<Rightarrow> bool" where
  "is_space c =
     (c \<in> set [CHR '' '', CHR 0x09, CHR 0x0A, CHR 0x0B, CHR 0x0C, CHR 0x0D, CHR 0xA0])"

definition trim :: "string \<Rightarrow> string" where
  "trim s = rev (dropWhile is_space (rev (dropWhile is_space s)))"

text \<open>\<open>s.startsWith(p)\<close>, \<open>s.includes(p)\<close> (\<open>s.indexOf(p) !== -1\<close>).\<close>

fun startsWith :: "string \<Rightarrow> string \<Rightarrow> bool" where
  "startsWith s [] = True"
| "startsWith [] (p # ps) = False"
| "startsWith (c # cs) (p # ps) = (c = p \<and> startsWith cs ps)"

fun includes_str :: "string \<Rightarrow> string \<Rightarrow> bool" where
  "includes_str [] p = (p = [])"
| "includes_str (c # cs) p = (startsWith (c # cs) p \<or> includes_str cs p)"

text \<open>
  \<open>s.split(sep)\<close> for a non-empty separator: \<open>skip\<close> counts the characters of a
  separator just found that are still to be passed over, \<open>acc\<close> is the piece being read.
\<close>

fun split_aux :: "string \<Rightarrow> nat \<Rightarrow> string \<Rightarrow> string \<Rightarrow> string list" where
  "split_aux sep skip acc [] = [acc]"
| "split_aux sep (Suc n) acc (c # cs) = split_aux sep n acc cs"
| "split_aux sep 0 acc (c # cs) =
     (if sep \<noteq> [] \<and> startsWith (c # cs) sep
      then acc # split_aux sep (length sep - 1) [] cs
      else split_aux sep 0 (acc @ [c]) cs)"

definition split :: "string \<Rightarrow> string \<Rightarrow> string list" where
  "split s sep = split_aux sep 0 [] s"

text \<open>\<open>String(i)\<close> for a non-negative integer, and \<open>s.padStart(4, '0')\<close>.\<close>

definition digit :: "nat \<Rightarrow> char" where
  "digit d = ''0123456789'' ! d"

fun String_nat :: "nat \<Rightarrow> string" where
  "String_nat n = (if n < 10 then [digit n] else String_nat (n div 10) @ [digit (n mod 10)])"

declare String_nat.simps [simp del]

definition padStart4 :: "string \<Rightarrow> string" where
  "padStart4 s = replicate (4 - length s) CHR ''0'' @ s"

section \<open>The host document tree\<close>

text \<open>
  A node handle carries what the tree walks of the scraper read without a query: its
  identity, its tag name and its parent link. The chain of parents is finite by
  construction, as in the host tree. The parent of the root element is the document;
  the parent of the top elements of a shadow tree is the shadow root, whose own parent
  is \<open>null\<close>; a detached element has parent \<open>null\<close>.
\<close>

datatype node =
    Document
  | ShadowRoot nat
  | Element nat string "node option"

fun tagName :: "node \<Rightarrow> string" where
  "tagName (Element i t p) = t"
| "tagName n = []"

fun parentNode :: "node \<Rightarrow> node option" where
  "parentNode (Element i t p) = p"
| "parentNode n = None"

text \<open>\<open>parentElement\<close> is the parent when that is an element, else \<open>null\<close>.\<close>

fun parentElement :: "node \<Rightarrow> node option" where
  "parentElement (Element i t (Some (Element j u q))) = Some (Element j u q)"
| "parentElement n = None"

text \<open>\<open>a.contains(b)\<close>: \<open>b\<close> is \<open>a\<close> or has \<open>a\<close> among its ancestors.\<close>

fun contains :: "node \<Rightarrow> node \<Rightarrow> bool" where
  "contains a (Element i t (Some p)) = (a = Element i t (Some p) \<or> contains a p)"
| "contains a b = (a = b)"

section \<open>Selector Generator\<close>

text \<open>
  \<open>GetSelectorStructural\<close>: \<open>BODY\<close> at an element whose tag is \<open>BODY\<close>, the parent's
  selector and the tag joined by \<open>' > '\<close> when there is a parent element, else the tag.
\<close>

fun GetSelectorStructural :: "node \<Rightarrow> string" where
  "GetSelectorStructural (Element i t (Some (Element j u q))) =
     (if t = ''BODY'' then ''BODY''
      else GetSelectorStructural (Element j u q) @ '' > '' @ t)"
| "GetSelectorStructural n = (if tagName n = ''BODY'' then ''BODY'' else tagName n)"

section \<open>The host interface\<close>

text \<open>
  What the engine asks of the host: selector queries under a node, children, shadow
  roots, attributes and reflected properties, rendered boxes, hit-testing at a scroll
  offset, the viewport and the range the window can scroll over, the location (its
  \<open>origin\<close> and its \<open>href\<close>, the full address of the document) and the \<open>URL\<close>
  constructor. The engine never changes the tree, so a host is a fixed record of
  functions; the scroll offset, which the engine does change, is passed as a state.
  A property the host leaves \<open>undefined\<close>, or an attribute that is absent
  (\<open>null\<close>), is \<open>None\<close>.

  A query throws a \<open>SyntaxError\<close> on a selector that does not parse:
  \<open>valid_selector\<close> tells which selectors parse, and \<open>querySelectorAll\<close> gives the
  matches of those that do. \<open>URL_href h r b\<close> is \<open>new URL(r, b).href\<close>, and \<open>None\<close>
  when the constructor throws its \<open>TypeError\<close> (a reference or a base that does not
  parse).
\<close>

datatype shadow_mode = Open | Closed

record host =
  valid_selector :: "string \<Rightarrow> bool"
  querySelectorAll :: "node \<Rightarrow> string \<Rightarrow> node list"
  children :: "node \<Rightarrow> node list"
  shadowRoot :: "node \<Rightarrow> (shadow_mode \<times> node) option"
  getAttribute :: "node \<Rightarrow> string \<Rightarrow> string option"
  classList :: "node \<Rightarrow> string list"
  innerText :: "node \<Rightarrow> string option"
  textContent :: "node \<Rightarrow> string option"
  innerHTML :: "node \<Rightarrow> string option"
  srcset :: "node \<Rightarrow> string"
  src :: "node \<Rightarrow> string"
  offsetHeight :: "node \<Rightarrow> nat"
  offsetWidth :: "node \<Rightarrow> nat"
  elementFromPoint :: "int \<times> int \<Rightarrow> int \<times> int \<Rightarrow> node option"
  innerWidth :: int
  innerHeight :: int
  scrollMaxX :: int
  scrollMaxY :: int
  location_origin :: string
  location_href :: string
  URL_href :: "string \<Rightarrow> string \<Rightarrow> string option"

text \<open>\<open>querySelector\<close> is the first element of \<open>querySelectorAll\<close>, or \<open>null\<close>.\<close>

definition querySelector :: "host \<Rightarrow> node \<Rightarrow> string \<Rightarrow> node option" where
  "querySelector h r s = (case querySelectorAll h r s of [] \<Rightarrow> None | x # _ \<Rightarrow> Some x)"

text \<open>The two queries on a selector the caller was given, with their fault.\<close>

definition qsa :: "host \<Rightarrow> node \<Rightarrow> string \<Rightarrow> fault + node list" where
  "qsa h r s = (if valid_selector h s then Inr (querySelectorAll h r s) else Inl SyntaxError)"

definition qs :: "host \<Rightarrow> node \<Rightarrow> string \<Rightarrow> fault + node option" where
  "qs h r s = (if valid_selector h s then Inr (querySelector h r s) else Inl SyntaxError)"

text \<open>
  \<open>window.scrollTo(x, y)\<close>: the window takes the offset nearest to the one asked for
  that it can scroll to. \<open>in_range\<close> are the offsets a window can be at.
\<close>

definition scrollTo :: "host \<Rightarrow> int \<times> int \<Rightarrow> int \<times> int" where
  "scrollTo h offset =
     (max 0 (min (fst offset) (scrollMaxX h)), max 0 (min (snd offset) (scrollMaxY h)))"

definition in_range :: "host \<Rightarrow> int \<times> int \<Rightarrow> bool" where
  "in_range h offset =
     (0 \<le> fst offset \<and> fst offset \<le> scrollMaxX h \<and> 0 \<le> snd offset \<and> snd offset \<le> scrollMaxY h)"

section \<open>Heuristic Locator: sampling\<close>

definition area :: "host \<Rightarrow> node \<Rightarrow> int" where
  "area h element = int (offsetHeight h element * offsetWidth h element)"

text \<open>
  \<open>getGrid()\<close> with its default arguments: \<open>1 / granularity\<close> is \<open>200\<close>, and the two
  \<open>for\<close> loops step by it from \<open>0\<close> while below the viewport's width and height.
\<close>

function grid_from :: "int \<Rightarrow> int \<Rightarrow> int list" where
  "grid_from x bound = (if x < bound then x # grid_from (x + 200) bound else [])"
  by pat_completeness auto
termination
  by (relation "measure (\<lambda>(x, bound). nat (bound - x))") auto

declare grid_from.simps [simp del]

definition getGrid :: "host \<Rightarrow> (int \<times> int) list" where
  "getGrid h =
     concat (map (\<lambda>x. map (\<lambda>y. (0 + x, 0 + y)) (grid_from 0 (innerHeight h)))
                 (grid_from 0 (innerWidth h)))"

text \<open>
  \<open>Math.max(...sizes)\<close> and \<open>Math.min(...sizes)\<close>. On no argument JavaScript gives
  \<open>-Infinity\<close> and \<open>Infinity\<close>; the scoring reaches them with three sizes or more, and
  the seed selection compares the result with the lengths it was taken from.
\<close>

fun Math_max :: "int list \<Rightarrow> int" where
  "Math_max [] = 0"
| "Math_max [x] = x"
| "Math_max (x # y # ys) = max x (Math_max (y # ys))"

fun Math_min :: "int list \<Rightarrow> int" where
  "Math_min [] = 0"
| "Math_min [x] = x"
| "Math_min (x # y # ys) = min x (Math_min (y # ys))"

text \<open>
  The score of a candidate, as an exact rational. \<open>None\<close> is \<open>NaN\<close> (the quotient
  \<open>0 / 0\<close> when every area is \<open>0\<close>), which is greater than nothing. With another
  \<open>metricType\<close> the score stays \<open>null\<close>, which the comparison converts to \<open>0\<close>.
\<close>

definition metric_of :: "string \<Rightarrow> int list \<Rightarrow> rat option" where
  "metric_of metricType sizes =
     (if metricType = ''total_area'' then Some (of_int (sum_list sizes))
      else if metricType = ''size_deviation'' then
        (if Math_max sizes = 0 then None
         else Some (1 - of_int (Math_max sizes - Math_min sizes) / of_int (Math_max sizes)))
      else Some 0)"

text \<open>
  \<open>updateMaximumWithPoint\<close>. The state is \<open>maxSelector\<close>, a selector and its metric.
  When hit-testing gives \<open>null\<close>, \<open>GetSelectorStructural\<close> reads \<open>tagName\<close> of
  \<open>null\<close>, a TypeError; the query on the structural selector throws when a tag name
  makes a selector that does not parse.
\<close>

definition updateMaximumWithPoint ::
  "host \<Rightarrow> nat \<Rightarrow> int \<Rightarrow> string \<Rightarrow> int \<times> int \<Rightarrow> string \<times> rat \<Rightarrow> int \<times> int
     \<Rightarrow> fault + string \<times> rat" where
  "updateMaximumWithPoint h maxCountPerPage minArea metricType scroll maxSelector point =
     (case elementFromPoint h scroll point of
        None \<Rightarrow> Inl TypeError
      | Some currentElement \<Rightarrow>
          (let selector = GetSelectorStructural currentElement
           in case qsa h Document selector of
                Inl f \<Rightarrow> Inl f
              | Inr matches \<Rightarrow>
                  (let elements = filter (\<lambda>element. area h element > minArea) matches
                   in if length elements < 3 then Inr maxSelector
                      else (case metric_of metricType (map (area h) elements) of
                              None \<Rightarrow> Inr maxSelector
                            | Some metric \<Rightarrow>
                                if metric > snd maxSelector \<and> length elements < maxCountPerPage
                                then Inr (selector, metric) else Inr maxSelector))))"

text \<open>\<open>grid.forEach(updateMaximumWithPoint)\<close>: a fault ends the iteration.\<close>

fun forEach_point ::
  "host \<Rightarrow> nat \<Rightarrow> int \<Rightarrow> string \<Rightarrow> int \<times> int \<Rightarrow> (int \<times> int) list \<Rightarrow> string \<times> rat
     \<Rightarrow> fault + string \<times> rat" where
  "forEach_point h maxCountPerPage minArea metricType scroll [] maxSelector = Inr maxSelector"
| "forEach_point h maxCountPerPage minArea metricType scroll (point # grid) maxSelector =
     (case updateMaximumWithPoint h maxCountPerPage minArea metricType scroll maxSelector point of
        Inl f \<Rightarrow> Inl f
      | Inr m \<Rightarrow> forEach_point h maxCountPerPage minArea metricType scroll grid m)"

text \<open>
  The \<open>for (let scroll = 0; scroll < scrolls; scroll += 1)\<close> loop, over the list of its
  indices, each starting with \<open>window.scrollTo(0, scroll * window.innerHeight)\<close>. The
  result is the offset the window is left at, with the fault or the final
  \<open>maxSelector\<close>.
\<close>

fun sampling ::
  "host \<Rightarrow> nat \<Rightarrow> int \<Rightarrow> string \<Rightarrow> nat list \<Rightarrow> int \<times> int \<Rightarrow> string \<times> rat
     \<Rightarrow> (int \<times> int) \<times> (fault + string \<times> rat)" where
  "sampling h maxCountPerPage minArea metricType [] window maxSelector = (window, Inr maxSelector)"
| "sampling h maxCountPerPage minArea metricType (scroll # rest) window maxSelector =
     (let window' = scrollTo h (0, int scroll * innerHeight h)
      in case forEach_point h maxCountPerPage minArea metricType window' (getGrid h) maxSelector of
           Inl f \<Rightarrow> (window', Inl f)
         | Inr m \<Rightarrow> sampling h maxCountPerPage minArea metricType rest window' m)"

section \<open>Heuristic Locator: the generalisation loop\<close>

text \<open>\<open>a.findIndex(p)\<close>: the first index whose element satisfies \<open>p\<close>, or \<open>-1\<close>.\<close>

fun findIndex :: "('a \<Rightarrow> bool) \<Rightarrow> 'a list \<Rightarrow> int" where
  "findIndex p [] = -1"
| "findIndex p (x # xs) =
     (if p x then 0 else (let r = findIndex p xs in if r < 0 then -1 else r + 1))"

text \<open>\<open>different = (x, i, a) => a.findIndex((e) => e === x) === i\<close>, and \<open>a.every(different)\<close>.\<close>

definition different :: "'a \<Rightarrow> nat \<Rightarrow> 'a list \<Rightarrow> bool" where
  "different x i a = (findIndex (\<lambda>e. e = x) a = int i)"

definition every_different :: "'a list \<Rightarrow> bool" where
  "every_different a = list_all (\<lambda>(i, x). different x i a) (enumerate 0 a)"

text \<open>
  \<open>Array.prototype.forEach\<close> calls the callback on each element, discards what it
  returns, and itself returns \<open>undefined\<close>. The callback of the loop condition,
  \<open>(x) => x.parentElement !== null\<close>, has no effect.
\<close>

definition forEach :: "('a \<Rightarrow> bool) \<Rightarrow> 'a list \<Rightarrow> jsval" where
  "forEach f xs = Undefined"

text \<open>
  The loop at the end of \<open>scrapableHeuristics\<close>:
  \<^verbatim>\<open>while (out.map((x) => x.parentElement).every(different)
    && out.forEach((x) => x.parentElement !== null)) {
    out = out.map((x) => x.parentElement ?? x);
  }\<close>
  \<open>None\<close> stands for a loop that does not return.
\<close>

partial_function (option) generalize :: "node list \<Rightarrow> node list option" where
  "generalize out =
     (if every_different (map parentElement out)
         \<and> truthy (forEach (\<lambda>x. parentElement x \<noteq> None) out)
      then generalize (map (\<lambda>x. case parentElement x of Some p \<Rightarrow> p | None \<Rightarrow> x) out)
      else Some out)"

text \<open>
  \<open>scrapableHeuristics\<close>, from the scroll offset at entry: the offset at exit, with the
  fault raised or the elements returned. \<open>restoreScroll\<close> is the statement after the
  sampling loop: it scrolls to the offset saved at entry.
\<close>

definition scrapableHeuristics ::
  "host \<Rightarrow> nat \<Rightarrow> int \<Rightarrow> nat \<Rightarrow> string \<Rightarrow> int \<times> int
     \<Rightarrow> ((int \<times> int) \<times> (fault + node list)) option" where
  "scrapableHeuristics h maxCountPerPage minArea scrolls metricType window =
     (let saved = window
      in case sampling h maxCountPerPage minArea metricType [0..<scrolls] window (''body'', 0) of
           (window', Inl f) \<Rightarrow> Some (window', Inl f)
         | (window', Inr maxSelector) \<Rightarrow>
             (let restored = scrollTo h saved
              in case qsa h Document (fst maxSelector) of
                   Inl f \<Rightarrow> Some (restored, Inl f)
                 | Inr matches \<Rightarrow>
                     (case generalize matches of
                        None \<Rightarrow> None
                      | Some out \<Rightarrow> Some (restored, Inr out))))"

section \<open>Record Extractor\<close>

text \<open>
  The image URL of \<open>window.scrape\<close>: with a \<open>srcset\<close>, the first space-separated
  piece of the last \<open>', '\<close>-separated candidate; else \<open>src\<close> unless it includes
  \<open>data:\<close>; else \<open>undefined\<close>. \<open>split\<close> never returns an empty array.
\<close>

definition imgUrl :: "host \<Rightarrow> node \<Rightarrow> jsval" where
  "imgUrl h x =
     (let url = (if srcset h x \<noteq> []
                 then (case rev (split (srcset h x) '', '') of
                         [] \<Rightarrow> Undefined
                       | candidate # _ \<Rightarrow>
                           (case split candidate '' '' of [] \<Rightarrow> Undefined | u # _ \<Rightarrow> Str u))
                 else Null)
      in if srcset h x \<noteq> [] then url
         else if \<not> includes_str (src h x) ''data:'' then Str (src h x)
         else Undefined)"

text \<open>The two reducers, with the index \<open>reduce\<close> passes them.\<close>

definition img_step :: "host \<Rightarrow> obj \<Rightarrow> node \<Rightarrow> nat \<Rightarrow> obj" where
  "img_step h p x i =
     obj_spread p (if truthy (imgUrl h x) then [(''img_'' @ String_nat i, imgUrl h x)] else [])"

definition text_step :: "obj \<Rightarrow> string \<Rightarrow> nat \<Rightarrow> obj" where
  "text_step p x i = obj_set p (''record_'' @ padStart4 (String_nat i)) (Str (trim x))"

definition img_part :: "host \<Rightarrow> node list \<Rightarrow> obj" where
  "img_part h imgs = fold (\<lambda>(i, x) p. img_step h p x i) (enumerate 0 imgs) []"

definition text_part :: "string list \<Rightarrow> obj" where
  "text_part lines = fold (\<lambda>(i, x) p. text_step p x i) (enumerate 0 lines) []"

text \<open>
  The callback of \<open>crudeRecords\<close>. An element without \<open>innerText\<close> makes
  \<open>record.innerText.split\<close> a TypeError. The selector \<open>img\<close> parses in every
  host.
\<close>

definition scrape_record :: "host \<Rightarrow> node \<Rightarrow> fault + obj" where
  "scrape_record h record =
     (case innerText h record of
        None \<Rightarrow> Inl TypeError
      | Some t \<Rightarrow>
          Inr (obj_spread (img_part h (querySelectorAll h record ''img''))
                          (text_part (split t ''\<newline>''))))"

text \<open>\<open>window.scrape(selector)\<close>; \<open>null\<close> and the empty string are falsy.\<close>

definition scrape ::
  "host \<Rightarrow> string option \<Rightarrow> int \<times> int \<Rightarrow> ((int \<times> int) \<times> (fault + obj list)) option" where
  "scrape h selector window =
     (case (case selector of
              Some s \<Rightarrow> if s \<noteq> [] then Some (window, qsa h Document s)
                        else scrapableHeuristics h 50 20000 3 ''size_deviation'' window
            | None \<Rightarrow> scrapableHeuristics h 50 20000 3 ''size_deviation'' window) of
        None \<Rightarrow> None
      | Some (window', Inl f) \<Rightarrow> Some (window', Inl f)
      | Some (window', Inr elements) \<Rightarrow> Some (window', map_fault (scrape_record h) elements))"







section \<open>Schema Extractor\<close>

record config =
  selector :: string
  attribute :: "string option"
  shadow :: bool

definition open_shadowRoot :: "host \<Rightarrow> node \<Rightarrow> node option" where
  "open_shadowRoot h el =
     (case shadowRoot h el of Some (Open, r) \<Rightarrow> Some r | _ \<Rightarrow> None)"

text \<open>
  The loop of \<open>findAllElements\<close> over the parts of a shadow selector: \<open>i\<close> is the index
  of the part, \<open>n\<close> the number of parts. An element without an open shadow root is
  passed over without a query.
\<close>

fun findAllElements_parts ::
  "host \<Rightarrow> string list \<Rightarrow> nat \<Rightarrow> nat \<Rightarrow> node list \<Rightarrow> fault + node list" where
  "findAllElements_parts h [] i n currentElements = Inr currentElements"
| "findAllElements_parts h (part # parts) i n currentElements =
     (case map_fault
             (\<lambda>element.
                if i = 0
                then (case qsa h element part of
                        Inl f \<Rightarrow> Inl f
                      | Inr matches \<Rightarrow>
                          Inr (filter (\<lambda>el. int i = int n - 1 \<or> open_shadowRoot h el \<noteq> None)
                                      matches))
                else (case open_shadowRoot h element of
                        None \<Rightarrow> Inr []
                      | Some r \<Rightarrow> qsa h r part))
             currentElements of
        Inl f \<Rightarrow> Inl f
      | Inr targets \<Rightarrow>
          (let nextElements = concat targets
           in if nextElements = [] then Inr []
              else findAllElements_parts h parts (i + 1) n nextElements))"

definition findAllElements :: "host \<Rightarrow> config \<Rightarrow> fault + node list" where
  "findAllElements h c =
     (if \<not> shadow c \<or> \<not> includes_str (selector c) ''>>''
      then qsa h Document (selector c)
      else (let parts = map trim (split (selector c) ''>>'')
            in findAllElements_parts h parts 0 (length parts) [Document]))"

text \<open>
  \<open>getElementValue\<close>. An \<open>attribute\<close> left out of the configuration is
  \<open>undefined\<close>, which \<open>getAttribute\<close> reads as the name \<open>undefined\<close>.
  \<open>absolute\<close> is
  \<open>relative ? new URL(relative, window.location.origin).href : null\<close>.
\<close>

definition trimmed :: "string option \<Rightarrow> jsval" where
  "trimmed t = (case t of None \<Rightarrow> Undefined | Some s \<Rightarrow> Str (trim s))"

definition absolute :: "host \<Rightarrow> string option \<Rightarrow> fault + jsval" where
  "absolute h relative =
     (case relative of
        None \<Rightarrow> Inr Null
      | Some r \<Rightarrow>
          if r \<noteq> []
          then (case URL_href h r (location_origin h) of
                  None \<Rightarrow> Inl TypeError
                | Some u \<Rightarrow> Inr (Str u))
          else Inr Null)"

definition getElementValue :: "host \<Rightarrow> node option \<Rightarrow> string option \<Rightarrow> fault + jsval" where
  "getElementValue h element attr =
     (case element of
        None \<Rightarrow> Inr Null
      | Some e \<Rightarrow>
          if attr = Some ''href'' then absolute h (getAttribute h e ''href'')
          else if attr = Some ''src'' then absolute h (getAttribute h e ''src'')
          else if attr = Some ''innerText'' then Inr (trimmed (innerText h e))
          else if attr = Some ''textContent'' then Inr (trimmed (textContent h e))
          else (case getAttribute h e (case attr of None \<Rightarrow> ''undefined'' | Some a \<Rightarrow> a) of
                  Some v \<Rightarrow> if v \<noteq> [] then Inr (Str v) else Inr (trimmed (innerText h e))
                | None \<Rightarrow> Inr (trimmed (innerText h e))))"

text \<open>
  \<open>getSeedKey\<close>: \<open>omap\<close> resolves every field for its length, \<open>ofilter\<close> resolves
  every field again and keeps those of the largest length, and the first key kept is
  the seed; \<open>undefined\<close> (\<open>None\<close>) on an empty mapping.
\<close>

definition getSeedKey :: "host \<Rightarrow> (string \<times> config) list \<Rightarrow> fault + string option" where
  "getSeedKey h listObj =
     (case map_fault (\<lambda>(k, x). case findAllElements h x of
                                  Inl f \<Rightarrow> Inl f
                                | Inr elements \<Rightarrow> Inr (int (length elements)))
                     listObj of
        Inl f \<Rightarrow> Inl f
      | Inr lengths \<Rightarrow>
          (let maxLength = Math_max lengths
           in case map_fault (\<lambda>(k, v). case findAllElements h v of
                                          Inl f \<Rightarrow> Inl f
                                        | Inr elements \<Rightarrow>
                                            Inr (k, int (length elements) = maxLength))
                             listObj of
                Inl f \<Rightarrow> Inl f
              | Inr kept \<Rightarrow> Inr (map_option fst (find snd kept))))"

text \<open>
  \<open>getMBEs\<close>. \<open>isUniqueChild e\<close> counts the elements that \<open>e.parentNode\<close> contains;
  without a parent the optional chaining gives \<open>undefined\<close> and the count is \<open>0\<close>.
  The \<open>while\<close> loop climbs the parent chain; a \<open>null\<close> candidate would end it.
\<close>

definition isUniqueChild :: "node list \<Rightarrow> node \<Rightarrow> bool" where
  "isUniqueChild elements e =
     (length (filter (\<lambda>elem. case parentNode e of None \<Rightarrow> False | Some p \<Rightarrow> contains p elem)
                     elements) = 1)"

fun mbe_walk :: "node list \<Rightarrow> node \<Rightarrow> node option" where
  "mbe_walk elements (Element i t (Some p)) =
     (if isUniqueChild elements (Element i t (Some p)) then mbe_walk elements p
      else Some (Element i t (Some p)))"
| "mbe_walk elements candidate =
     (if isUniqueChild elements candidate then parentNode candidate else Some candidate)"

definition getMBEs :: "node list \<Rightarrow> node option list" where
  "getMBEs elements = map (mbe_walk elements) elements"

text \<open>
  The value of one field for one MBE: the field is resolved, and the value is that of
  the first resolved element the MBE contains. A \<open>null\<close> MBE makes the callback
  \<open>mbe.contains(elem)\<close> a TypeError as soon as \<open>find\<close> calls it.
\<close>

definition mbe_value :: "host \<Rightarrow> node option \<Rightarrow> config \<Rightarrow> fault + jsval" where
  "mbe_value h mbe c =
     (case findAllElements h c of
        Inl f \<Rightarrow> Inl f
      | Inr elements \<Rightarrow>
          (case mbe of
             None \<Rightarrow> if elements = [] then Inr Undefined else Inl TypeError
           | Some m \<Rightarrow>
               (case find (\<lambda>elem. contains m elem) elements of
                  None \<Rightarrow> Inr Undefined
                | Some elem \<Rightarrow> getElementValue h (Some elem) (attribute c))))"

text \<open>\<open>omap(object, f)\<close> with the identity on keys.\<close>

definition omap :: "(string \<times> 'a) list \<Rightarrow> ('a \<Rightarrow> fault + jsval) \<Rightarrow> fault + obj" where
  "omap object f =
     map_fault (\<lambda>(k, v). case f v of Inl e \<Rightarrow> Inl e | Inr y \<Rightarrow> Inr (k, y)) object"

definition mbeResults :: "host \<Rightarrow> (string \<times> config) list \<Rightarrow> node option list \<Rightarrow> fault + obj list" where
  "mbeResults h lists' MBEs = map_fault (\<lambda>mbe. omap lists' (mbe_value h mbe)) MBEs"

text \<open>
  The fallback. \<open>results\<close> is a JavaScript array, which an assignment beyond its end
  extends, leaving holes (\<open>None\<close>) in between; \<open>filter\<close> passes over the holes.
\<close>

definition array_get :: "'a option list \<Rightarrow> nat \<Rightarrow> 'a option" where
  "array_get a i = (if i < length a then a ! i else None)"

definition array_set :: "'a option list \<Rightarrow> nat \<Rightarrow> 'a \<Rightarrow> 'a option list" where
  "array_set a i v =
     (if i < length a then a[i := Some v]
      else a @ replicate (i - length a) None @ [Some v])"

text \<open>
  \<open>if (!results[index]) results[index] = {}; results[index][key] = value\<close>
\<close>

definition assign_field :: "obj option list \<Rightarrow> nat \<Rightarrow> string \<Rightarrow> jsval \<Rightarrow> obj option list" where
  "assign_field results index key v =
     array_set results index
       (obj_set (case array_get results index of None \<Rightarrow> [] | Some r \<Rightarrow> r) key v)"

text \<open>\<open>lists[key].attribute\<close>, for a key of \<open>lists\<close>.\<close>

definition attribute_of :: "(string \<times> config) list \<Rightarrow> string \<Rightarrow> string option" where
  "attribute_of lists' key = (case map_of lists' key of None \<Rightarrow> None | Some c \<Rightarrow> attribute c)"

text \<open>
  The inner loop of the fallback, over the elements of one field with their indices. A
  value that faults ends the loops.
\<close>

definition fallback_field ::
  "host \<Rightarrow> (string \<times> config) list \<Rightarrow> string \<times> node list \<Rightarrow> obj option list
     \<Rightarrow> fault + obj option list" where
  "fallback_field h lists' = (\<lambda>(key, elements) results.
     fold_fault (\<lambda>(index, element) rs.
                   case getElementValue h (Some element) (attribute_of lists' key) of
                     Inl f \<Rightarrow> Inl f
                   | Inr v \<Rightarrow> Inr (assign_field rs index key v))
                (enumerate 0 elements) results)"

text \<open>
  The fallback: every field is resolved into \<open>foundElements\<close>, then the fields are
  written into \<open>results\<close> one after the other, and the objects with a key are kept.
\<close>

definition fallback :: "host \<Rightarrow> (string \<times> config) list \<Rightarrow> fault + obj list" where
  "fallback h lists' =
     (case map_fault (\<lambda>(key, c). case findAllElements h c of
                                    Inl f \<Rightarrow> Inl f
                                  | Inr elements \<Rightarrow> Inr (key, elements))
                     lists' of
        Inl f \<Rightarrow> Inl f
      | Inr foundElements \<Rightarrow>
          (case fold_fault (fallback_field h lists') foundElements [] of
             Inl f \<Rightarrow> Inl f
           | Inr results \<Rightarrow>
               Inr (concat (map (\<lambda>r. case r of
                                        None \<Rightarrow> []
                                      | Some result \<Rightarrow> if length result > 0 then [result] else [])
                                results))))"

definition has_undefined :: "obj list \<Rightarrow> bool" where
  "has_undefined results = list_ex (\<lambda>result. list_ex (\<lambda>(k, v). v = Undefined) result) results"

text \<open>
  The first half of \<open>window.scrapeSchema\<close>, the MBE approach. On an empty mapping
  the seed key is \<open>undefined\<close> and \<open>findAllElements(lists[seedName])\<close> reads
  \<open>shadow\<close> of \<open>undefined\<close>.
\<close>

definition mbe_grouping :: "host \<Rightarrow> (string \<times> config) list \<Rightarrow> fault + obj list" where
  "mbe_grouping h lists' =
     (case getSeedKey h lists' of
        Inl f \<Rightarrow> Inl f
      | Inr None \<Rightarrow> Inl TypeError
      | Inr (Some seedName) \<Rightarrow>
          (case map_of lists' seedName of
             None \<Rightarrow> Inl TypeError
           | Some seedConfig \<Rightarrow>
               (case findAllElements h seedConfig of
                  Inl f \<Rightarrow> Inl f
                | Inr seedElements \<Rightarrow> mbeResults h lists' (getMBEs seedElements))))"

text \<open>\<open>window.scrapeSchema\<close>: the MBE results, or the fallback when one of them has an \<open>undefined\<close> value.\<close>

definition scrapeSchema :: "host \<Rightarrow> (string \<times> config) list \<Rightarrow> fault + obj list" where
  "scrapeSchema h lists' =
     (case mbe_grouping h lists' of
        Inl f \<Rightarrow> Inl f
      | Inr results \<Rightarrow>
          if has_undefined results then fallback h lists' else Inr results)"

text \<open>
  The elements a field resolves to and the value of an element where neither is a
  fault, as the descriptions below read them.
\<close>

definition elements_of :: "host \<Rightarrow> config \<Rightarrow> node list" where
  "elements_of h c = (case findAllElements h c of Inl f \<Rightarrow> [] | Inr elements \<Rightarrow> elements)"

definition value_of :: "host \<Rightarrow> node \<Rightarrow> string option \<Rightarrow> jsval" where
  "value_of h e attr = (case getElementValue h (Some e) attr of Inl f \<Rightarrow> Undefined | Inr v \<Rightarrow> v)"

text \<open>The values of every resolved element of every field can be read: no \<open>href\<close> or \<open>src\<close> among them is refused by the \<open>URL\<close> constructor.\<close>

definition values_readable :: "host \<Rightarrow> (string \<times> config) list \<Rightarrow> bool" where
  "values_readable h lists' =
     list_all (\<lambda>(key, c).
                 list_all (\<lambda>e. case getElementValue h (Some e) (attribute c) of
                                   Inl f \<Rightarrow> False
                                 | Inr v \<Rightarrow> True)
                          (elements_of h c))
              lists'"

text \<open>
  Positional zipping in the words of the specification: item \<open>i\<close> is assembled from
  index \<open>i\<close> of every field's list of resolved elements, over the indices of the
  longest list, and the items left with no field are dropped.
\<close>

definition longest :: "host \<Rightarrow> (string \<times> config) list \<Rightarrow> nat" where
  "longest h lists' = fold max (map (\<lambda>(key, c). length (elements_of h c)) lists') 0"

definition zip_item :: "host \<Rightarrow> (string \<times> config) list \<Rightarrow> nat \<Rightarrow> obj" where
  "zip_item h lists' i =
     concat (map (\<lambda>(key, c).
                    if i < length (elements_of h c)
                    then [(key, value_of h (elements_of h c ! i) (attribute c))]
                    else [])
                 lists')"

definition positional_zip :: "host \<Rightarrow> (string \<times> config) list \<Rightarrow> obj list" where
  "positional_zip h lists' =
     filter (\<lambda>item. item \<noteq> []) (map (zip_item h lists') [0..<longest h lists'])"


text \<open>The root of the tree a node is in: the end of its chain of parents.\<close>

fun root_node :: "node \<Rightarrow> node" where
  "root_node (Element i t (Some p)) = root_node p"
| "root_node n = n"

text \<open>
  The fallback seen column by column: \<open>zip_field\<close> is what one field's loop does to
  the items, \<open>zipped\<close> the items after all the fields, \<open>column\<close> the item an index
  gets from lists of values.
\<close>

fun zip_field :: "string \<Rightarrow> jsval list \<Rightarrow> obj list \<Rightarrow> obj list" where
  "zip_field k [] items = items"
| "zip_field k (v # vs) [] = [(k, v)] # zip_field k vs []"
| "zip_field k (v # vs) (item # items) = obj_set item k v # zip_field k vs items"

definition zipped :: "(string \<times> jsval list) list \<Rightarrow> obj list" where
  "zipped kvs = fold (\<lambda>(key, vs) items. zip_field key vs items) kvs []"

definition column :: "(string \<times> jsval list) list \<Rightarrow> nat \<Rightarrow> obj" where
  "column kvs i = concat (map (\<lambda>(key, vs). if i < length vs then [(key, vs ! i)] else []) kvs)"

definition widest :: "(string \<times> jsval list) list \<Rightarrow> nat" where
  "widest kvs = fold max (map (\<lambda>(key, vs). length vs) kvs) 0"


section \<open>List Extractor\<close>

text \<open>
  Documents, elements and shadow roots all offer \<open>querySelector\<close> and
  \<open>querySelectorAll\<close>, so the tests \<open>!currentElement.querySelector\<close> and
  \<open>element.querySelectorAll\<close> are decided by the kind of node.
\<close>

fun has_querySelector :: "node \<Rightarrow> bool" where
  "has_querySelector Document = True"
| "has_querySelector (ShadowRoot k) = True"
| "has_querySelector (Element i t p) = True"

text \<open>The search of \<open>queryShadowDOM\<close> through the shadow roots of the children, up to the first hit.\<close>

fun child_shadow_query :: "host \<Rightarrow> string \<Rightarrow> node list \<Rightarrow> fault + node option" where
  "child_shadow_query h part [] = Inr None"
| "child_shadow_query h part (child # rest) =
     (case shadowRoot h child of
        None \<Rightarrow> child_shadow_query h part rest
      | Some (m, r) \<Rightarrow>
          (case qs h r part of
             Inl f \<Rightarrow> Inl f
           | Inr None \<Rightarrow> child_shadow_query h part rest
           | Inr (Some nextElement) \<Rightarrow> Inr (Some nextElement)))"

fun queryShadowDOM_parts :: "host \<Rightarrow> string list \<Rightarrow> node option \<Rightarrow> fault + node option" where
  "queryShadowDOM_parts h [] currentElement = Inr currentElement"
| "queryShadowDOM_parts h (part # parts) currentElement =
     (case currentElement of
        None \<Rightarrow> Inr None
      | Some c \<Rightarrow>
          if \<not> has_querySelector c \<and> shadowRoot h c = None
          then (case qs h Document part of
                  Inl f \<Rightarrow> Inl f
                | Inr nextElement \<Rightarrow> queryShadowDOM_parts h parts nextElement)
          else
            (case qs h c part of
               Inl f \<Rightarrow> Inl f
             | Inr nextElement \<Rightarrow>
                 (case (case nextElement of
                          Some x \<Rightarrow> Inr (Some x)
                        | None \<Rightarrow> (case shadowRoot h c of
                                     None \<Rightarrow> Inr None
                                   | Some (m, r) \<Rightarrow> qs h r part)) of
                    Inl f \<Rightarrow> Inl f
                  | Inr nextElement2 \<Rightarrow>
                      (case (case nextElement2 of
                               Some x \<Rightarrow> Inr (Some x)
                             | None \<Rightarrow> child_shadow_query h part (children h c)) of
                         Inl f \<Rightarrow> Inl f
                       | Inr nextElement3 \<Rightarrow> queryShadowDOM_parts h parts nextElement3))))"

definition queryShadowDOM :: "host \<Rightarrow> node \<Rightarrow> string \<Rightarrow> fault + node option" where
  "queryShadowDOM h rootElement sel =
     queryShadowDOM_parts h (map trim (split sel ''>>'')) (Some rootElement)"

text \<open>
  One element of the loop of \<open>queryShadowDOMAll\<close>: the matches under the element,
  under its shadow root and under the shadow roots of its children, in this order.
\<close>

definition queryAll_element :: "host \<Rightarrow> string \<Rightarrow> node \<Rightarrow> fault + node list" where
  "queryAll_element h part element =
     (case (if has_querySelector element then qsa h element part else Inr []) of
        Inl f \<Rightarrow> Inl f
      | Inr own \<Rightarrow>
          (case (case shadowRoot h element of None \<Rightarrow> Inr [] | Some (m, r) \<Rightarrow> qsa h r part) of
             Inl f \<Rightarrow> Inl f
           | Inr inner \<Rightarrow>
               (case map_fault (\<lambda>child. case shadowRoot h child of
                                          None \<Rightarrow> Inr []
                                        | Some (m, r) \<Rightarrow> qsa h r part)
                               (children h element) of
                  Inl f \<Rightarrow> Inl f
                | Inr below \<Rightarrow> Inr (own @ inner @ concat below))))"

fun queryShadowDOMAll_parts :: "host \<Rightarrow> string list \<Rightarrow> node list \<Rightarrow> fault + node list" where
  "queryShadowDOMAll_parts h [] currentElements = Inr currentElements"
| "queryShadowDOMAll_parts h (part # parts) currentElements =
     (case map_fault (queryAll_element h part) currentElements of
        Inl f \<Rightarrow> Inl f
      | Inr nextElements \<Rightarrow> queryShadowDOMAll_parts h parts (concat nextElements))"

definition queryShadowDOMAll :: "host \<Rightarrow> node \<Rightarrow> string \<Rightarrow> fault + node list" where
  "queryShadowDOMAll h rootElement sel =
     queryShadowDOMAll_parts h (map trim (split sel ''>>'')) [rootElement]"

text \<open>
  \<open>Math.floor(firstMatchClasses.length * 0.7)\<close>, in double precision. The literal
  \<open>0.7\<close> is the double \<open>6305039478318694 / 2^53\<close>. The product with the length \<open>n\<close>
  is the exact \<open>n * 6305039478318694 / 2^53\<close> rounded to 53 significant bits, to
  nearest and on a tie to even: \<open>e\<close> is the number of bits of the numerator beyond
  53, \<open>m\<close> the rounded numerator in units of \<open>2^e\<close>. An array has fewer than
  \<open>2^32\<close> elements, so the length itself is exact.
\<close>

fun bitlen :: "nat \<Rightarrow> nat" where
  "bitlen n = (if n = 0 then 0 else Suc (bitlen (n div 2)))"

declare bitlen.simps [simp del]

definition double_07 :: nat where
  "double_07 = 6305039478318694"

definition floor_07 :: "nat \<Rightarrow> nat" where
  "floor_07 n =
     (let P = n * double_07;
          e = bitlen P - 53;
          q = P div 2 ^ e;
          r = P mod 2 ^ e;
          m = (if 2 * r > 2 ^ e \<or> (2 * r = 2 ^ e \<and> odd q) then q + 1 else q)
      in (m * 2 ^ e) div 2 ^ 53)"

definition commonClasses :: "host \<Rightarrow> node \<Rightarrow> node \<Rightarrow> string list" where
  "commonClasses h firstMatch element =
     filter (\<lambda>cls. cls \<in> set (classList h element)) (classList h firstMatch)"

text \<open>
  The containers one pass of the \<open>while\<close> loop works on: the matches of the list
  selector, replaced under \<open>limit > 1 && parentElements.length <= 1\<close> by the similar
  children of the container when both the container and the first match resolve.
\<close>

definition parentElements_of :: "host \<Rightarrow> string \<Rightarrow> nat \<Rightarrow> fault + node list" where
  "parentElements_of h listSelector limit =
     (case queryShadowDOMAll h Document listSelector of
        Inl f \<Rightarrow> Inl f
      | Inr parentElements \<Rightarrow>
          if limit > 1 \<and> length parentElements \<le> 1
          then (case map trim (split listSelector ''>>'') of
                  [] \<Rightarrow> Inr parentElements
                | containerSelector # rest \<Rightarrow>
                    (case queryShadowDOM h Document containerSelector of
                       Inl f \<Rightarrow> Inl f
                     | Inr None \<Rightarrow> Inr parentElements
                     | Inr (Some container) \<Rightarrow>
                         (case queryShadowDOM h Document listSelector of
                            Inl f \<Rightarrow> Inl f
                          | Inr None \<Rightarrow> Inr parentElements
                          | Inr (Some firstMatch) \<Rightarrow>
                              Inr (filter (\<lambda>element.
                                             length (commonClasses h firstMatch element)
                                               \<ge> floor_07 (length (classList h firstMatch)))
                                          (children h container)))))
          else Inr parentElements)"

text \<open>\<open>selector.split('>>').slice(-1)[0]\<close>\<close>

definition last_part :: "string list \<Rightarrow> string" where
  "last_part ps = (case rev ps of [] \<Rightarrow> [] | p # _ \<Rightarrow> p)"

text \<open>The \<open>switch (attribute)\<close> of \<open>scrapeList\<close>.\<close>

definition field_value :: "host \<Rightarrow> node \<Rightarrow> string option \<Rightarrow> fault + jsval" where
  "field_value h fieldElement attr =
     (if attr = Some ''innerText''
      then Inr (Str (case innerText h fieldElement of None \<Rightarrow> [] | Some t \<Rightarrow> trim t))
      else if attr = Some ''innerHTML''
      then Inr (Str (case innerHTML h fieldElement of None \<Rightarrow> [] | Some t \<Rightarrow> trim t))
      else if attr = Some ''src'' then absolute h (getAttribute h fieldElement ''src'')
      else if attr = Some ''href'' then absolute h (getAttribute h fieldElement ''href'')
      else (case getAttribute h fieldElement (case attr of None \<Rightarrow> ''undefined'' | Some a \<Rightarrow> a) of
              None \<Rightarrow> Inr Null
            | Some v \<Rightarrow> Inr (Str v)))"






section \<open>Example documents\<close>

text \<open>
  The documents the concrete checks below run on. \<open>blank_host\<close> is a host with an
  empty page; each example overrides what its page has. Its selectors parse unless
  they are empty or hold the \<open>>>\<close> of the shadow notation, which is not CSS.
\<close>

definition ex_html :: node where
  "ex_html = Element 0 ''HTML'' (Some Document)"

definition ex_body :: node where
  "ex_body = Element 1 ''BODY'' (Some ex_html)"

definition ex_div :: "nat \<Rightarrow> node" where
  "ex_div i = Element i ''DIV'' (Some ex_body)"

definition ex_span :: "nat \<Rightarrow> node" where
  "ex_span i = Element i ''SPAN'' (Some ex_body)"

text \<open>A card inside its own wrapper \<open>DIV\<close>.\<close>

definition ex_card :: "nat \<Rightarrow> node" where
  "ex_card i = Element (10 + i) ''LI'' (Some (ex_div i))"

definition blank_host :: host where
  "blank_host =
     \<lparr>valid_selector = (\<lambda>s. s \<noteq> [] \<and> \<not> includes_str s ''>>''),
      querySelectorAll = (\<lambda>r s. []), children = (\<lambda>n. []), shadowRoot = (\<lambda>n. None),
      getAttribute = (\<lambda>n a. None), classList = (\<lambda>n. []), innerText = (\<lambda>n. Some []),
      textContent = (\<lambda>n. Some []), innerHTML = (\<lambda>n. Some []), srcset = (\<lambda>n. []),
      src = (\<lambda>n. []), offsetHeight = (\<lambda>n. 0), offsetWidth = (\<lambda>n. 0),
      elementFromPoint = (\<lambda>s p. None), innerWidth = 0, innerHeight = 0,
      scrollMaxX = 0, scrollMaxY = 0,
      location_origin = [], location_href = [], URL_href = (\<lambda>r b. Some r)\<rparr>"

text \<open>
  A page with an empty body, 450 high, in a viewport 410 wide and 300 high, so that
  the window scrolls down by 150 at most. The right \<open>bar\<close> pixels of the viewport
  are a scroll bar: hit-testing there gives \<open>null\<close>, elsewhere the root element.
\<close>

definition ex_viewport :: "int \<Rightarrow> host" where
  "ex_viewport bar =
     blank_host
       \<lparr>querySelectorAll :=
          (\<lambda>r s. if r = Document \<and> s = ''HTML'' then [ex_html]
                 else if r = Document \<and> s = ''body'' then [ex_body] else []),
        offsetHeight := (\<lambda>n. 300), offsetWidth := (\<lambda>n. 410),
        elementFromPoint := (\<lambda>s p. if fst p \<le> 410 - bar then Some ex_html else None),
        innerWidth := 410, innerHeight := 300, scrollMaxY := 150\<rparr>"

text \<open>
  A card \<open>DIV\<close> with the text lines \<open>Title\<close> and \<open>9.99\<close> and three images: one
  with a plain \<open>src\<close>, one with an inline \<open>data:\<close> source, one with a \<open>srcset\<close>
  in ascending width. A fourth image, outside the card, lists its \<open>srcset\<close> widest
  first.
\<close>

definition ex_img :: "nat \<Rightarrow> node" where
  "ex_img i = Element (20 + i) ''IMG'' (Some (ex_div 2))"

definition ex_gallery :: host where
  "ex_gallery =
     blank_host
       \<lparr>querySelectorAll :=
          (\<lambda>r s. if r = ex_div 2 \<and> s = ''img'' then [ex_img 0, ex_img 1, ex_img 2] else []),
        innerText :=
          (\<lambda>n. if n = ex_div 2 then Some ''Title\<newline>  9.99 '' else Some []),
        srcset :=
          (\<lambda>n. if n = ex_img 2 then ''a.jpg 480w, b.jpg 1024w''
               else if n = ex_img 3 then ''b.jpg 1024w, a.jpg 480w'' else []),
        src :=
          (\<lambda>n. if n = ex_img 0 then ''https://example.com/x.png''
               else if n = ex_img 1 then ''data:image/png;base64,AAAA'' else [])\<rparr>"


text \<open>
  The \<open>URL\<close> constructor on the references the examples use: an absolute reference
  is kept, unless it has nothing after \<open>://\<close> and is refused; a reference that
  starts with a slash replaces the path of the base; any other reference replaces the
  last segment of the base's path.
\<close>

fun join_slash :: "string list \<Rightarrow> string" where
  "join_slash [] = []"
| "join_slash [p] = p"
| "join_slash (p # q # ps) = p @ ''/'' @ join_slash (q # ps)"

definition ex_URL_href :: "string \<Rightarrow> string \<Rightarrow> string option" where
  "ex_URL_href r b =
     (if includes_str r ''://''
      then (if last_part (split r ''://'') = [] then None else Some r)
      else (let pieces = split b ''/''; origin = join_slash (take 3 pieces); path = drop 3 pieces
            in if startsWith r ''/'' then Some (origin @ r)
               else Some (origin @ ''/'' @ concat (map (\<lambda>p. p @ ''/'') (butlast path)) @ r)))"

text \<open>
  The document \<open>https://example.com/shop/list.html\<close> with the link
  \<open><a href="item.html" title="Item"> Buy now </a>\<close>, whose text starts with a
  no-break space (U+00A0) and ends with a blank, and the link
  \<open><a class="broken" href="https://">\<close>, whose reference the \<open>URL\<close> constructor
  refuses.
\<close>

definition ex_a :: node where
  "ex_a = Element 30 ''A'' (Some ex_body)"

definition ex_broken :: node where
  "ex_broken = Element 31 ''A'' (Some ex_body)"

definition ex_shop :: host where
  "ex_shop =
     blank_host
       \<lparr>getAttribute :=
          (\<lambda>n a. if n = ex_a \<and> a = ''href'' then Some ''item.html''
                 else if n = ex_a \<and> a = ''title'' then Some ''Item''
                 else if n = ex_broken \<and> a = ''href'' then Some ''https://'' else None),
        querySelectorAll :=
          (\<lambda>r s. if r = Document \<and> s = ''a'' then [ex_a, ex_broken]
                 else if r = Document \<and> s = ''a.broken'' then [ex_broken] else []),
        innerText := (\<lambda>n. if n = ex_a then Some (CHR 0xA0 # ''Buy now '') else None),
        textContent := (\<lambda>n. if n = ex_a then Some (CHR 0xA0 # ''Buy now '') else None),
        location_origin := ''https://example.com'',
        location_href := ''https://example.com/shop/list.html'',
        URL_href := ex_URL_href\<rparr>"


text \<open>
  A menu \<open><ul>\<close> with five \<open><li class="item">\<close> children; the list selector
  \<open>ul >> li:first-child\<close> matches the first of them only.
\<close>

definition ex_ul :: node where
  "ex_ul = Element 40 ''UL'' (Some ex_body)"

definition ex_li :: "nat \<Rightarrow> node" where
  "ex_li i = Element (41 + i) ''LI'' (Some ex_ul)"

definition ex_menu :: host where
  "ex_menu =
     blank_host
       \<lparr>querySelectorAll :=
          (\<lambda>r s. if r = Document \<and> s = ''ul'' then [ex_ul]
                 else if r = ex_ul \<and> s = ''li:first-child'' then [ex_li 0] else []),
        children :=
          (\<lambda>n. if n = Document then [ex_html] else if n = ex_html then [ex_body]
               else if n = ex_body then [ex_ul]
               else if n = ex_ul then [ex_li 0, ex_li 1, ex_li 2, ex_li 3, ex_li 4] else []),
        classList := (\<lambda>n. if n \<in> set [ex_li 0, ex_li 1, ex_li 2, ex_li 3, ex_li 4] then [''item''] else [])\<rparr>"





text \<open>
  A shelf of two products, \<open><div><h2>A</h2><span class="price">1</span></div>\<close> and
  \<open><div><h2>B</h2></div>\<close>, under a heading \<open><h1>Shop</h1>\<close>; the second product
  has no price. The longer shelf \<open>ex_shelf3\<close> has a third product,
  \<open><div><h2>C</h2><span class="price">3</span></div>\<close>, after them. The schema reads
  the title and the price of each product.
\<close>

definition ex_product :: "nat \<Rightarrow> node" where
  "ex_product i = Element (70 + i) ''DIV'' (Some ex_body)"

definition ex_title :: "nat \<Rightarrow> node" where
  "ex_title i = Element (72 + i) ''H2'' (Some (ex_product i))"

definition ex_price :: node where
  "ex_price = Element 74 ''SPAN'' (Some (ex_product 0))"

definition ex_heading :: node where
  "ex_heading = Element 75 ''H1'' (Some ex_body)"

definition ex_shelf :: host where
  "ex_shelf =
     blank_host
       \<lparr>querySelectorAll :=
          (\<lambda>r s. if r = Document \<and> s = ''h2'' then [ex_title 0, ex_title 1]
                 else if r = Document \<and> s = ''.price'' then [ex_price]
                 else if r = Document \<and> s = ''h1'' then [ex_heading] else []),
        innerText :=
          (\<lambda>n. if n = ex_title 0 then Some ''A'' else if n = ex_title 1 then Some ''B''
               else if n = ex_price then Some ''1''
               else if n = ex_heading then Some ''Shop'' else None)\<rparr>"

definition ex_product3 :: node where
  "ex_product3 = Element 78 ''DIV'' (Some ex_body)"

definition ex_price3 :: node where
  "ex_price3 = Element 76 ''SPAN'' (Some ex_product3)"

definition ex_title3 :: node where
  "ex_title3 = Element 77 ''H2'' (Some ex_product3)"

definition ex_shelf3 :: host where
  "ex_shelf3 =
     blank_host
       \<lparr>querySelectorAll :=
          (\<lambda>r s. if r = Document \<and> s = ''h2'' then [ex_title 0, ex_title 1, ex_title3]
                 else if r = Document \<and> s = ''.price'' then [ex_price, ex_price3] else []),
        innerText :=
          (\<lambda>n. if n = ex_title 0 then Some ''A'' else if n = ex_title 1 then Some ''B''
               else if n = ex_title3 then Some ''C''
               else if n = ex_price then Some ''1''
               else if n = ex_price3 then Some ''3'' else None)\<rparr>"

definition ex_schema :: "(string \<times> config) list" where
  "ex_schema =
     [(''title'', \<lparr>selector = ''h2'', attribute = Some ''innerText'', shadow = False\<rparr>),
      (''price'', \<lparr>selector = ''.price'', attribute = Some ''innerText'', shadow = False\<rparr>)]"


text \<open>
  A custom element \<open><x-card>\<close> whose open shadow root holds \<open><span>Deal</span>\<close>.
\<close>

definition ex_widget :: node where
  "ex_widget = Element 80 ''X-CARD'' (Some ex_body)"

definition ex_label :: node where
  "ex_label = Element 81 ''SPAN'' (Some (ShadowRoot 1))"

definition ex_shadow :: host where
  "ex_shadow =
     blank_host
       \<lparr>querySelectorAll :=
          (\<lambda>r s. if r = Document \<and> s = ''x-card'' then [ex_widget]
                 else if r = ShadowRoot 1 \<and> s = ''span'' then [ex_label] else []),
        shadowRoot := (\<lambda>n. if n = ex_widget then Some (Open, ShadowRoot 1) else None),
        innerText := (\<lambda>n. if n = ex_label then Some ''Deal'' else None)\<rparr>"





text \<open>
  The shelf of two products with two links \<open><a href="a.html">\<close> and
  \<open><a href="https://">\<close> in the first product and none in the second; the \<open>URL\<close>
  constructor refuses the reference of the second link.
\<close>

definition ex_link :: "nat \<Rightarrow> node" where
  "ex_link i = Element (90 + i) ''A'' (Some (ex_product 0))"

definition ex_linked :: host where
  "ex_linked =
     ex_shelf
       \<lparr>querySelectorAll :=
          (\<lambda>r s. if r = Document \<and> s = ''a'' then [ex_link 0, ex_link 1]
                 else querySelectorAll ex_shelf r s),
        getAttribute :=
          (\<lambda>n a. if n = ex_link 0 \<and> a = ''href'' then Some ''a.html''
                 else if n = ex_link 1 \<and> a = ''href'' then Some ''https://'' else None),
        location_origin := ''https://example.com'',
        location_href := ''https://example.com/shop/list.html'',
        URL_href := ex_URL_href\<rparr>"

definition ex_link_schema :: "(string \<times> config) list" where
  "ex_link_schema =
     [(''title'', \<lparr>selector = ''h2'', attribute = Some ''innerText'', shadow = False\<rparr>),
      (''link'', \<lparr>selector = ''a'', attribute = Some ''href'', shadow = False\<rparr>)]"



section \<open>Properties\<close>

lemmas ex_nodes = ex_html_def ex_body_def ex_div_def

subsection \<open>Selector Generator\<close>

lemma GetSelectorStructural_BODY:
  "tagName e = ''BODY'' \<Longrightarrow> GetSelectorStructural e = ''BODY''"
  by (induction e rule: GetSelectorStructural.induct) simp_all

text \<open>
  C8, as the code has it. An element whose tag is not \<open>BODY\<close> and that has a parent
  element gets the parent's structural selector followed by \<open>' > '\<close> and its own tag
  name, nothing else. Two siblings (elements with the same parent node) get the same
  structural selector when they have the same tag name.
\<close>

theorem structural_selector_step:
  "(tagName e \<noteq> ''BODY'' \<and> parentElement e = Some p
      \<longrightarrow> GetSelectorStructural e = GetSelectorStructural p @ '' > '' @ tagName e)
   \<and> (parentNode e = parentNode e' \<and> tagName e = tagName e'
      \<longrightarrow> GetSelectorStructural e = GetSelectorStructural e')"
proof (intro conjI impI)
  assume "tagName e \<noteq> ''BODY'' \<and> parentElement e = Some p"
  then show "GetSelectorStructural e = GetSelectorStructural p @ '' > '' @ tagName e"
    by (cases e rule: GetSelectorStructural.cases) auto
next
  assume a: "parentNode e = parentNode e' \<and> tagName e = tagName e'"
  show "GetSelectorStructural e = GetSelectorStructural e'"
  proof (cases e)
    case e: (Element i t po)
    show ?thesis
    proof (cases e')
      case (Element i' t' po')
      with a e have same: "t' = t" "po' = po" by simp_all
      show ?thesis
      proof (cases po)
        case None
        with Element e same show ?thesis by simp
      next
        case (Some q)
        with Element e same show ?thesis by (cases q) simp_all
      qed
    next
      case Document
      with a e show ?thesis by simp
    next
      case (ShadowRoot k)
      with a e show ?thesis by simp
    qed
  next
    case Document
    with a show ?thesis by (cases e') auto
  next
    case (ShadowRoot k)
    with a show ?thesis by (cases e') auto
  qed
qed

theorem structural_selector_step_witness:
  "tagName (ex_div 2) \<noteq> ''BODY'' \<and> parentElement (ex_div 2) = Some ex_body
   \<and> GetSelectorStructural (ex_div 2) = ''BODY > DIV''
   \<and> parentNode (ex_div 2) = parentNode (ex_div 3) \<and> tagName (ex_div 2) = tagName (ex_div 3)
   \<and> GetSelectorStructural (ex_div 2) = GetSelectorStructural (ex_div 3)"
  using structural_selector_step [of "ex_div 2" ex_body "ex_div 3"]
  by (simp add: ex_nodes)

text \<open>
  The claim as stated fails: a \<open>DIV\<close> and a \<open>SPAN\<close> that are both children of the
  body get the selectors \<open>BODY > DIV\<close> and \<open>BODY > SPAN\<close>.
\<close>

theorem siblings_selector_counterexample:
  "parentNode (ex_div 2) = parentNode (ex_span 3)
   \<and> GetSelectorStructural (ex_div 2) = ''BODY > DIV''
   \<and> GetSelectorStructural (ex_span 3) = ''BODY > SPAN''
   \<and> GetSelectorStructural (ex_div 2) \<noteq> GetSelectorStructural (ex_span 3)"
  by (simp add: ex_nodes ex_span_def)

subsection \<open>Heuristic Locator\<close>

text \<open>
  The condition of the generalisation loop ends in the value of \<open>forEach\<close>, which is
  \<open>undefined\<close>: the loop body never runs and the matched elements are returned as
  they are.
\<close>

lemma generalize_returns_input: "generalize out = Some out"
  by (subst generalize.simps) (simp add: forEach_def)

text \<open>
  C1. The claim asks for at least one substitution round when the parents are pairwise
  distinct. Two cards, each in a wrapper of its own: their parents are distinct and
  not \<open>null\<close>, and the loop still returns the cards, not the wrappers.
\<close>

theorem generalize_no_round:
  "every_different (map parentElement [ex_card 2, ex_card 3])
   \<and> map parentElement [ex_card 2, ex_card 3] = [Some (ex_div 2), Some (ex_div 3)]
   \<and> generalize [ex_card 2, ex_card 3] = Some [ex_card 2, ex_card 3]"
  by (simp add: generalize_returns_input every_different_def different_def ex_nodes ex_card_def
        enumerate_eq_zip upt_rec)


lemma scrollTo_in_range: "in_range h offset \<Longrightarrow> scrollTo h offset = offset"
  by (cases offset) (simp add: in_range_def scrollTo_def)

text \<open>
  C2, as the code has it. \<open>scrapableHeuristics\<close> always ends, and it has no early
  return. Whenever it returns its elements, the scroll offset is the one saved at entry:
  \<open>restoreScroll\<close> has run, and the window can scroll back to the offset it was
  entered at. A fault raised during sampling leaves before \<open>restoreScroll\<close> is
  reached, and nothing is said of the offset then.
\<close>

theorem scroll_restored_on_return:
  "in_range h window \<Longrightarrow>
   \<exists>window' r.
     scrapableHeuristics h maxCountPerPage minArea scrolls metricType window = Some (window', r)
     \<and> (\<forall>out. r = Inr out \<longrightarrow> window' = window)"
proof -
  assume range: "in_range h window"
  obtain w' r where s: "sampling h maxCountPerPage minArea metricType [0..<scrolls] window (''body'', 0)
      = (w', r)"
    by (cases "sampling h maxCountPerPage minArea metricType [0..<scrolls] window (''body'', 0)")
  show ?thesis
  proof (cases r)
    case (Inl f)
    with s show ?thesis by (simp add: scrapableHeuristics_def)
  next
    case (Inr m)
    show ?thesis
    proof (cases "qsa h Document (fst m)")
      case (Inl f)
      with s Inr show ?thesis by (simp add: scrapableHeuristics_def)
    next
      case matches: (Inr matches)
      with s Inr range show ?thesis
        by (simp add: scrapableHeuristics_def generalize_returns_input scrollTo_in_range)
    qed
  qed
qed

lemma grid_410_300: "grid_from 0 410 = [0, 200, 400]" "grid_from 0 300 = [0, 200]"
  by (simp_all add: grid_from.simps)

lemmas ex_viewport_eval =
  scrapableHeuristics_def ex_viewport_def blank_host_def getGrid_def grid_410_300
  updateMaximumWithPoint_def qsa_def scrollTo_def in_range_def ex_nodes upt_rec Let_def

theorem scroll_restored_on_return_witness:
  "in_range (ex_viewport 0) (0, 120)
   \<and> scrapableHeuristics (ex_viewport 0) 50 20000 3 ''size_deviation'' (0, 120)
       = Some ((0, 120), Inr [ex_body])"
proof -
  have range: "in_range (ex_viewport 0) (0, 120)"
    by (simp add: ex_viewport_eval)
  from scroll_restored_on_return [OF range, of 50 20000 3 "''size_deviation''"] range
  show ?thesis
    by (simp add: ex_viewport_eval generalize_returns_input)
qed

text \<open>
  The claim as stated fails on the fault path. With a scroll bar 15 pixels wide the
  grid point \<open>(400, 0)\<close> hits nothing, \<open>GetSelectorStructural(null)\<close> raises a
  TypeError in the first iteration, and the window, entered at offset \<open>(0, 120)\<close>, is
  left at \<open>(0, 0)\<close>.
\<close>

theorem scroll_not_restored_counterexample:
  "in_range (ex_viewport 15) (0, 120)
   \<and> scrapableHeuristics (ex_viewport 15) 50 20000 3 ''size_deviation'' (0, 120)
       = Some ((0, 0), Inl TypeError)"
  by (simp add: ex_viewport_eval)

subsection \<open>Record Extractor\<close>







lemma obj_set_fresh: "k \<notin> fst ` set p \<Longrightarrow> obj_set p k v = p @ [(k, v)]"
  by (induction p) auto











text \<open>
  C3. The claim asks for the widest candidate of a \<open>srcset\<close>, whatever the order
  of the candidates; the comment in the code says the same (the largest element of the
  \<open>srcset\<close>). The code takes the last candidate: for a \<open>srcset\<close> that lists
  \<open>b.jpg 1024w\<close> before \<open>a.jpg 480w\<close> the URL is \<open>a.jpg\<close>.
\<close>

theorem srcset_last_candidate:
  "srcset ex_gallery (ex_img 3) = ''b.jpg 1024w, a.jpg 480w''
   \<and> imgUrl ex_gallery (ex_img 3) = Str ''a.jpg''"
  by (simp add: ex_gallery_def blank_host_def ex_nodes ex_img_def imgUrl_def split_def)

lemma startsWith_includes: "startsWith s p \<Longrightarrow> includes_str s p"
  by (cases s; cases p) auto

text \<open>
  The other two cases of the image URL hold as the comment in the code describes them:
  without a \<open>srcset\<close>, a \<open>src\<close> that includes \<open>data:\<close> gives \<open>undefined\<close> and
  the record gets no key for the image; any other \<open>src\<close> is the URL.
\<close>

lemma imgUrl_without_srcset:
  "srcset h x = [] \<Longrightarrow>
   imgUrl h x = (if includes_str (src h x) ''data:'' then Undefined else Str (src h x))"
  by (simp add: imgUrl_def)

lemma data_uri_no_key:
  "srcset h x = [] \<Longrightarrow> startsWith (src h x) ''data:'' \<Longrightarrow> img_step h p x i = p"
  by (simp add: img_step_def imgUrl_without_srcset startsWith_includes obj_spread_def)







subsection \<open>Value extraction\<close>

text \<open>
  C4, as the code has it. For \<open>href\<close> and \<open>src\<close> the value is the raw attribute
  resolved against the origin of the location (\<open>window.location.origin\<close>: scheme,
  host and port, without the path of the document), and \<open>null\<close> when the attribute
  is absent or empty; where the \<open>URL\<close> constructor refuses the reference, its
  TypeError is raised instead. \<open>scrapeList\<close> does the same. \<open>innerText\<close> and
  \<open>textContent\<close> give the trimmed text. Any other name is a raw attribute lookup
  that falls back to the trimmed \<open>innerText\<close>.
\<close>

theorem getElementValue_cases:
  "getElementValue h (Some e) (Some ''href'')
     = (case getAttribute h e ''href'' of
          None \<Rightarrow> Inr Null
        | Some r \<Rightarrow> if r = [] then Inr Null
                    else (case URL_href h r (location_origin h) of
                            None \<Rightarrow> Inl TypeError
                          | Some u \<Rightarrow> Inr (Str u)))
   \<and> getElementValue h (Some e) (Some ''src'')
     = (case getAttribute h e ''src'' of
          None \<Rightarrow> Inr Null
        | Some r \<Rightarrow> if r = [] then Inr Null
                    else (case URL_href h r (location_origin h) of
                            None \<Rightarrow> Inl TypeError
                          | Some u \<Rightarrow> Inr (Str u)))
   \<and> getElementValue h (Some e) (Some ''innerText'')
     = Inr (case innerText h e of None \<Rightarrow> Undefined | Some t \<Rightarrow> Str (trim t))
   \<and> getElementValue h (Some e) (Some ''textContent'')
     = Inr (case textContent h e of None \<Rightarrow> Undefined | Some t \<Rightarrow> Str (trim t))
   \<and> (a \<notin> {''href'', ''src'', ''innerText'', ''textContent''} \<longrightarrow>
        getElementValue h (Some e) (Some a)
          = Inr (case getAttribute h e a of
                   None \<Rightarrow> (case innerText h e of None \<Rightarrow> Undefined | Some t \<Rightarrow> Str (trim t))
                 | Some v \<Rightarrow>
                     if v = [] then (case innerText h e of None \<Rightarrow> Undefined | Some t \<Rightarrow> Str (trim t))
                     else Str v))
   \<and> field_value h e (Some ''href'')
     = (case getAttribute h e ''href'' of
          None \<Rightarrow> Inr Null
        | Some r \<Rightarrow> if r = [] then Inr Null
                    else (case URL_href h r (location_origin h) of
                            None \<Rightarrow> Inl TypeError
                          | Some u \<Rightarrow> Inr (Str u)))
   \<and> field_value h e (Some ''src'')
     = (case getAttribute h e ''src'' of
          None \<Rightarrow> Inr Null
        | Some r \<Rightarrow> if r = [] then Inr Null
                    else (case URL_href h r (location_origin h) of
                            None \<Rightarrow> Inl TypeError
                          | Some u \<Rightarrow> Inr (Str u)))"
  by (auto simp: getElementValue_def field_value_def absolute_def trimmed_def split: option.splits)

lemmas ex_shop_eval =
  getElementValue_def absolute_def trimmed_def ex_shop_def blank_host_def ex_a_def ex_broken_def
  ex_URL_href_def split_def last_part_def trim_def is_space_def Let_def

lemma ex_shop_values:
  "getElementValue ex_shop (Some ex_a) (Some ''href'') = Inr (Str ''https://example.com/item.html'')"
  "getElementValue ex_shop (Some ex_a) (Some ''innerText'') = Inr (Str ''Buy now'')"
  "getElementValue ex_shop (Some ex_a) (Some ''title'') = Inr (Str ''Item'')"
  "getElementValue ex_shop (Some ex_a) (Some ''src'') = Inr Null"
  "getElementValue ex_shop (Some ex_broken) (Some ''href'') = Inl TypeError"
  "URL_href ex_shop ''item.html'' (location_href ex_shop) = Some ''https://example.com/shop/item.html''"
  by (simp_all add: ex_shop_eval)

theorem getElementValue_cases_witness:
  "getElementValue ex_shop (Some ex_a) (Some ''href'') = Inr (Str ''https://example.com/item.html'')
   \<and> getElementValue ex_shop (Some ex_a) (Some ''src'') = Inr Null
   \<and> innerText ex_shop ex_a = Some (CHR 0xA0 # ''Buy now '')
   \<and> getElementValue ex_shop (Some ex_a) (Some ''innerText'') = Inr (Str ''Buy now'')
   \<and> ''title'' \<notin> {''href'', ''src'', ''innerText'', ''textContent''}
   \<and> getElementValue ex_shop (Some ex_a) (Some ''title'') = Inr (Str ''Item'')
   \<and> getElementValue ex_shop (Some ex_broken) (Some ''href'') = Inl TypeError"
  using getElementValue_cases [of ex_shop ex_a "''title''"]
  by (simp add: ex_shop_values) (simp add: ex_shop_def blank_host_def)

text \<open>
  The claim as stated fails: in the document \<open>https://example.com/shop/list.html\<close>
  the reference \<open>item.html\<close> resolves against the document's address to
  \<open>https://example.com/shop/item.html\<close>, and the code returns
  \<open>https://example.com/item.html\<close>.
\<close>

theorem href_document_location_counterexample:
  "getAttribute ex_shop ex_a ''href'' = Some ''item.html''
   \<and> location_href ex_shop = ''https://example.com/shop/list.html''
   \<and> URL_href ex_shop ''item.html'' (location_href ex_shop) = Some ''https://example.com/shop/item.html''
   \<and> getElementValue ex_shop (Some ex_a) (Some ''href'') = Inr (Str ''https://example.com/item.html'')"
  by (simp add: ex_shop_values) (simp add: ex_shop_def blank_host_def ex_a_def ex_broken_def)


subsection \<open>List Extractor\<close>

text \<open>
  The threshold. The number of bits of a number lies between its powers of two; the
  rounding moves the exact product by half a unit of the last place at most; so the
  threshold for \<open>n\<close> class tokens is at most any whole number that is at least 70% of
  \<open>n\<close>. At 90 tokens the product rounds below 63 and the threshold is 62.
\<close>

lemma bitlen_le: "n < 2 ^ k \<Longrightarrow> bitlen n \<le> k"
proof (induction k arbitrary: n)
  case 0
  then show ?case by (simp add: bitlen.simps)
next
  case (Suc k)
  show ?case
  proof (cases "n = 0")
    case True
    then show ?thesis by (simp add: bitlen.simps)
  next
    case False
    from Suc.prems have "n div 2 < 2 ^ k" by simp
    from Suc.IH [OF this] False show ?thesis
      by (subst bitlen.simps) simp
  qed
qed

lemma round_nearest_bound:
  fixes P e :: nat
  defines "q \<equiv> P div 2 ^ e" and "r \<equiv> P mod 2 ^ e"
  defines "m \<equiv> (if 2 * r > 2 ^ e \<or> (2 * r = 2 ^ e \<and> odd q) then q + 1 else q)"
  shows "2 * (m * 2 ^ e) \<le> 2 * P + 2 ^ e"
proof -
  have P: "P = q * 2 ^ e + r" unfolding q_def r_def by (rule div_mult_mod_eq [symmetric])
  show ?thesis
  proof (cases "2 * r > 2 ^ e \<or> (2 * r = 2 ^ e \<and> odd q)")
    case True
    then have "2 ^ e \<le> 2 * r" by auto
    moreover from True have "m = q + 1" by (simp add: m_def)
    ultimately show ?thesis by (simp add: P algebra_simps)
  next
    case False
    then have "m = q" by (simp add: m_def)
    then show ?thesis by (simp add: P)
  qed
qed

lemma floor_07_bound:
  assumes n: "n < 2 ^ 32" and c: "7 * n \<le> 10 * c"
  shows "floor_07 n \<le> c"
proof -
  define P where "P = n * double_07"
  define e where "e = bitlen P - 53"
  define q where "q = P div 2 ^ e"
  define r where "r = P mod 2 ^ e"
  define m where "m = (if 2 * r > 2 ^ e \<or> (2 * r = 2 ^ e \<and> odd q) then q + 1 else q)"
  have f: "floor_07 n = (m * 2 ^ e) div 2 ^ 53"
    by (simp add: floor_07_def Let_def P_def e_def q_def r_def m_def)
  have round: "2 * (m * 2 ^ e) \<le> 2 * P + 2 ^ e"
    unfolding m_def q_def r_def by (rule round_nearest_bound)
  have "P < 2 ^ 32 * 2 ^ 53"
    unfolding P_def double_07_def using n
    by (intro mult_strict_mono) simp_all
  then have "P < 2 ^ 85" by simp
  then have "bitlen P \<le> 85" by (rule bitlen_le)
  then have "e \<le> 32" by (simp add: e_def)
  then have e32: "(2::nat) ^ e \<le> 2 ^ 32" by (rule power_increasing) simp
  have "10 * P + 4 * n = 7 * n * 2 ^ 53"
    by (simp add: P_def double_07_def)
  also have "\<dots> \<le> 10 * c * 2 ^ 53" using c by (intro mult_right_mono) simp_all
  finally have P10: "10 * P \<le> 10 * c * 2 ^ 53" by simp
  have "20 * (m * 2 ^ e) \<le> 20 * P + 10 * 2 ^ e" using round by simp
  also have "\<dots> \<le> 20 * c * 2 ^ 53 + 10 * 2 ^ 32" using P10 e32 by simp
  also have "\<dots> < 20 * ((c + 1) * 2 ^ 53)" by simp
  finally have "m * 2 ^ e < (c + 1) * 2 ^ 53" by simp
  then have "(m * 2 ^ e) div 2 ^ 53 < c + 1" by (rule less_mult_imp_div_less)
  with f show ?thesis by simp
qed


lemma bitlen_ge: "2 ^ k \<le> n \<Longrightarrow> k < bitlen n"
proof (induction k arbitrary: n)
  case 0
  then show ?case by (subst bitlen.simps) simp
next
  case (Suc k)
  then have "2 ^ k \<le> n div 2" by simp
  moreover from Suc.prems have "0 < n"
    by (cases "n = 0") simp_all
  ultimately show ?case
    using Suc.IH [of "n div 2"] by (subst bitlen.simps) simp
qed

lemma bitlen_eq: "2 ^ k \<le> n \<Longrightarrow> n < 2 ^ Suc k \<Longrightarrow> bitlen n = Suc k"
  using bitlen_ge [of k n] bitlen_le [of n "Suc k"] by simp

lemma floor_07_90: "floor_07 90 = 62"
proof -
  have "bitlen (90 * double_07) = Suc 58"
    by (rule bitlen_eq) (simp_all add: double_07_def)
  then show ?thesis
    by (simp add: floor_07_def double_07_def Let_def)
qed


lemma floor_07_1: "floor_07 (Suc 0) = 0"
proof -
  have "bitlen (Suc 0 * double_07) = Suc 52"
    by (rule bitlen_eq) (simp_all add: double_07_def)
  then show ?thesis
    by (simp add: floor_07_def double_07_def Let_def)
qed

lemma commonClasses_self: "commonClasses h e e = classList h e"
  by (simp add: commonClasses_def)

lemma length_without:
  "distinct cs \<Longrightarrow>
   length cs = length (filter (\<lambda>c. c \<noteq> x) cs) + (if x \<in> set cs then 1 else 0)"
  by (induction cs) auto

text \<open>
  C6, as the code has it. With \<open>limit > 1\<close> and at most one match of the list
  selector, when the leading segment resolves to a container and the whole selector to
  a first match with \<open>n\<close> class tokens (fewer than \<open>2^32\<close>, as an array has), the
  containers become the children of that container that share at least
  \<open>Math.floor(n * 0.7)\<close> of the class tokens of the first match. The first
  match passes its own test, so it is accepted whenever it is one of these children.
  When every other child shares at least 70% of the tokens, all the children are
  accepted, and their number is the number of the other children, plus one when the
  first match is one of the children: the first match and four siblings make five
  containers.
\<close>

theorem similarity_fallback:
  assumes "limit > 1"
    and "queryShadowDOMAll h Document listSelector = Inr matches"
    and "length matches \<le> 1"
    and "map trim (split listSelector ''>>'') = containerSelector # rest"
    and "queryShadowDOM h Document containerSelector = Inr (Some container)"
    and "queryShadowDOM h Document listSelector = Inr (Some firstMatch)"
    and small: "length (classList h firstMatch) < 2 ^ 32"
  shows "parentElements_of h listSelector limit
           = Inr (filter (\<lambda>element. length (commonClasses h firstMatch element)
                                       \<ge> floor_07 (length (classList h firstMatch)))
                         (children h container))
         \<and> (firstMatch \<in> set (children h container) \<longrightarrow>
               (\<exists>accepted. parentElements_of h listSelector limit = Inr accepted
                            \<and> firstMatch \<in> set accepted))
         \<and> ((\<forall>c \<in> set (children h container). c \<noteq> firstMatch \<longrightarrow>
                10 * length (commonClasses h firstMatch c)
                  \<ge> 7 * length (classList h firstMatch))
              \<longrightarrow> (\<exists>accepted. parentElements_of h listSelector limit = Inr accepted
                    \<and> accepted = children h container
                    \<and> (distinct (children h container) \<longrightarrow>
                          length accepted
                            = length (filter (\<lambda>c. c \<noteq> firstMatch) (children h container))
                              + (if firstMatch \<in> set (children h container) then 1 else 0))))"
proof -
  let ?sim = "\<lambda>element. length (commonClasses h firstMatch element)
                                  \<ge> floor_07 (length (classList h firstMatch))"
  let ?cs = "children h container"
  from assms have eq: "parentElements_of h listSelector limit = Inr (filter ?sim ?cs)"
    by (simp add: parentElements_of_def)
  have self: "?sim firstMatch"
    using floor_07_bound [OF small, of "length (classList h firstMatch)"]
    by (simp add: commonClasses_self)
  have all: "filter ?sim ?cs = ?cs"
    if others: "\<forall>c \<in> set ?cs. c \<noteq> firstMatch \<longrightarrow>
              10 * length (commonClasses h firstMatch c) \<ge> 7 * length (classList h firstMatch)"
  proof -
    have "?sim c" if "c \<in> set ?cs" for c
    proof (cases "c = firstMatch")
      case True
      with self show ?thesis by simp
    next
      case False
      with that others
      have "7 * length (classList h firstMatch) \<le> 10 * length (commonClasses h firstMatch c)"
        by blast
      then show ?thesis by (rule floor_07_bound [OF small])
    qed
    then show ?thesis by simp
  qed
  have member: "firstMatch \<in> set ?cs \<longrightarrow>
               (\<exists>accepted. parentElements_of h listSelector limit = Inr accepted
                            \<and> firstMatch \<in> set accepted)"
    using eq self by simp
  have count: "(\<forall>c \<in> set ?cs. c \<noteq> firstMatch \<longrightarrow>
                10 * length (commonClasses h firstMatch c)
                  \<ge> 7 * length (classList h firstMatch))
              \<longrightarrow> (\<exists>accepted. parentElements_of h listSelector limit = Inr accepted
                    \<and> accepted = ?cs
                    \<and> (distinct ?cs \<longrightarrow>
                          length accepted = length (filter (\<lambda>c. c \<noteq> firstMatch) ?cs)
                              + (if firstMatch \<in> set ?cs then 1 else 0)))"
    using eq all length_without [of ?cs firstMatch] by simp
  from eq member count show ?thesis by blast
qed

lemmas ex_menu_eval =
  queryShadowDOMAll_def queryShadowDOM_def queryAll_element_def querySelector_def qsa_def qs_def
  split_def trim_def is_space_def ex_menu_def blank_host_def ex_ul_def ex_li_def ex_nodes

lemma ex_menu_resolved:
  "queryShadowDOMAll ex_menu Document ''ul >> li:first-child'' = Inr [ex_li 0]"
  "map trim (split ''ul >> li:first-child'' ''>>'') = [''ul'', ''li:first-child'']"
  "queryShadowDOM ex_menu Document ''ul'' = Inr (Some ex_ul)"
  "queryShadowDOM ex_menu Document ''ul >> li:first-child'' = Inr (Some (ex_li 0))"
  "children ex_menu ex_ul = [ex_li 0, ex_li 1, ex_li 2, ex_li 3, ex_li 4]"
  by (simp_all add: ex_menu_eval)

lemma ex_menu_classes:
  "\<forall>c \<in> set (children ex_menu ex_ul). c \<noteq> ex_li 0 \<longrightarrow>
      10 * length (commonClasses ex_menu (ex_li 0) c) \<ge> 7 * length (classList ex_menu (ex_li 0))"
  "length (classList ex_menu (ex_li 0)) < 2 ^ 32"
  "distinct (children ex_menu ex_ul)"
  "filter (\<lambda>c. c \<noteq> ex_li 0) (children ex_menu ex_ul) = [ex_li 1, ex_li 2, ex_li 3, ex_li 4]"
  by (simp_all add: commonClasses_def ex_menu_def blank_host_def ex_ul_def ex_li_def ex_nodes)

theorem similarity_fallback_witness:
  "queryShadowDOMAll ex_menu Document ''ul >> li:first-child'' = Inr [ex_li 0]
   \<and> queryShadowDOM ex_menu Document ''ul'' = Inr (Some ex_ul)
   \<and> queryShadowDOM ex_menu Document ''ul >> li:first-child'' = Inr (Some (ex_li 0))
   \<and> length (classList ex_menu (ex_li 0)) < 2 ^ 32
   \<and> ex_li 0 \<in> set (children ex_menu ex_ul)
   \<and> distinct (children ex_menu ex_ul)
   \<and> filter (\<lambda>c. c \<noteq> ex_li 0) (children ex_menu ex_ul) = [ex_li 1, ex_li 2, ex_li 3, ex_li 4]
   \<and> parentElements_of ex_menu ''ul >> li:first-child'' 10
       = Inr [ex_li 0, ex_li 1, ex_li 2, ex_li 3, ex_li 4]"
proof -
  have limit: "(1::nat) < 10" by simp
  have few: "length [ex_li 0] \<le> 1" by simp
  have child: "ex_li 0 \<in> set (children ex_menu ex_ul)"
    by (simp add: ex_menu_resolved)
  note fallback =
    similarity_fallback [OF limit ex_menu_resolved(1) few ex_menu_resolved(2) ex_menu_resolved(3)
      ex_menu_resolved(4) ex_menu_classes(2)]
  from fallback ex_menu_classes(1)
  have "parentElements_of ex_menu ''ul >> li:first-child'' 10 = Inr (children ex_menu ex_ul)"
    by blast
  with child ex_menu_classes(2,3,4) show ?thesis
    by (simp only: ex_menu_resolved simp_thms)
qed

lemma ex_menu_parents:
  "parentElements_of ex_menu ''ul >> li:first-child'' 10
     = Inr [ex_li 0, ex_li 1, ex_li 2, ex_li 3, ex_li 4]"
  by (simp add: ex_menu_resolved parentElements_of_def commonClasses_def)
     (simp add: ex_menu_def blank_host_def ex_ul_def ex_li_def ex_nodes floor_07_1)

text \<open>
  The claim as stated fails: the selector matches one element, its container has four
  other children that share all of its class tokens, and the containers are five,
  not four.
\<close>

theorem four_siblings_counterexample:
  "queryShadowDOMAll ex_menu Document ''ul >> li:first-child'' = Inr [ex_li 0]
   \<and> children ex_menu ex_ul = [ex_li 0, ex_li 1, ex_li 2, ex_li 3, ex_li 4]
   \<and> list_all (\<lambda>c. commonClasses ex_menu (ex_li 0) c = classList ex_menu (ex_li 0))
        [ex_li 1, ex_li 2, ex_li 3, ex_li 4]
   \<and> parentElements_of ex_menu ''ul >> li:first-child'' 10
       = Inr [ex_li 0, ex_li 1, ex_li 2, ex_li 3, ex_li 4]
   \<and> length [ex_li 0, ex_li 1, ex_li 2, ex_li 3, ex_li 4] = 5"
  by (simp add: ex_menu_resolved ex_menu_parents commonClasses_def)
     (simp add: ex_menu_def blank_host_def ex_ul_def ex_li_def ex_nodes)









subsection \<open>Schema Extractor\<close>

text \<open>
  A \<open>map\<close> or a loop whose steps all return is the plain \<open>map\<close> or loop; a loop
  with a step that always faults ends in a fault.
\<close>

lemma map_fault_all: "\<forall>x \<in> set xs. f x = Inr (g x) \<Longrightarrow> map_fault f xs = Inr (map g xs)"
  by (induction xs) simp_all

lemma map_fault_Inr:
  "map_fault f xs = Inr ys \<Longrightarrow> length ys = length xs \<and> (\<forall>x \<in> set xs. \<exists>y. f x = Inr y)"
proof (induction xs arbitrary: ys)
  case Nil
  then show ?case by simp
next
  case (Cons x xs)
  then show ?case by (auto split: sum.splits)
qed

lemma fold_fault_all:
  "\<forall>x \<in> set xs. \<forall>a. f x a = Inr (g x a) \<Longrightarrow> fold_fault f xs acc = Inr (fold g xs acc)"
  by (induction xs arbitrary: acc) simp_all

lemma fold_fault_faults:
  "\<exists>x \<in> set xs. \<forall>a. \<exists>e. f x a = Inl e \<Longrightarrow> \<exists>e. fold_fault f xs acc = Inl e"
proof (induction xs arbitrary: acc)
  case Nil
  then show ?case by simp
next
  case (Cons x xs)
  show ?case
  proof (cases "f x acc")
    case (Inl e)
    then show ?thesis by simp
  next
    case (Inr acc')
    from Cons.prems obtain y where y: "y \<in> set (x # xs)" "\<forall>a. \<exists>e. f y a = Inl e"
      by blast
    have "y \<noteq> x"
    proof
      assume "y = x"
      with y(2) obtain e where "f x acc = Inl e" by blast
      with Inr show False by simp
    qed
    with y have "\<exists>x \<in> set xs. \<forall>a. \<exists>e. f x a = Inl e" by auto
    from Cons.IH [OF this] Inr show ?thesis by simp
  qed
qed


text \<open>
  When the seed key is computed, every field of the mapping has been resolved without a
  fault, and \<open>elements_of\<close> is what it resolves to.
\<close>

lemma elements_of_Inr: "findAllElements h c = Inr els \<Longrightarrow> elements_of h c = els"
  by (simp add: elements_of_def)

lemma getSeedKey_resolves:
  "getSeedKey h lists' = Inr k \<Longrightarrow> (key, c) \<in> set lists' \<Longrightarrow>
   findAllElements h c = Inr (elements_of h c)"
proof -
  assume k: "getSeedKey h lists' = Inr k" and m: "(key, c) \<in> set lists'"
  from k obtain lengths where
    "map_fault (\<lambda>(k, x). case findAllElements h x of
                                  Inl f \<Rightarrow> Inl f
                                | Inr elements \<Rightarrow> Inr (int (length elements))) lists' = Inr lengths"
    by (auto simp: getSeedKey_def split: sum.splits)
  from map_fault_Inr [OF this] m
  obtain y where "(case findAllElements h c of
                                  Inl f \<Rightarrow> Inl f
                                | Inr elements \<Rightarrow> Inr (int (length elements))) = Inr y"
    by fastforce
  then show ?thesis by (cases "findAllElements h c") (simp_all add: elements_of_def)
qed

lemma value_of_Inr: "getElementValue h (Some e) a = Inr v \<Longrightarrow> value_of h e a = v"
  by (simp add: value_of_def)

lemma readable_value:
  "values_readable h lists' \<Longrightarrow> (key, c) \<in> set lists' \<Longrightarrow> e \<in> set (elements_of h c) \<Longrightarrow>
   getElementValue h (Some e) (attribute c) = Inr (value_of h e (attribute c))"
proof -
  assume "values_readable h lists'" "(key, c) \<in> set lists'" "e \<in> set (elements_of h c)"
  then have "case getElementValue h (Some e) (attribute c) of Inl f \<Rightarrow> False | Inr v \<Rightarrow> True"
    by (fastforce simp: values_readable_def list_all_iff)
  then show ?thesis
    by (cases "getElementValue h (Some e) (attribute c)") (simp_all add: value_of_def)
qed

lemma unreadable_value:
  "\<not> values_readable h lists' \<Longrightarrow>
   \<exists>(key, c) \<in> set lists'. \<exists>e \<in> set (elements_of h c). \<exists>f.
      getElementValue h (Some e) (attribute c) = Inl f"
  by (fastforce simp: values_readable_def list_all_iff split: sum.splits)

text \<open>
  The inner loop of the fallback writes one field into the items, index by index:
  it is \<open>zip_field\<close> on the items there are.
\<close>

lemma assign_loop:
  "length pre = n \<Longrightarrow>
   fold (\<lambda>(index, element) rs. assign_field rs index key (val element))
        (enumerate n elements) (map Some (pre @ items))
     = map Some (pre @ zip_field key (map val elements) items)"
proof (induction elements arbitrary: n pre items)
  case Nil
  then show ?case by simp
next
  case (Cons x xs)
  show ?case
  proof (cases items)
    case Nil
    with Cons.prems have step: "assign_field (map Some (pre @ items)) n key (val x)
        = map Some ((pre @ [[(key, val x)]]) @ [])"
      by (simp add: assign_field_def array_get_def array_set_def)
    have "length (pre @ [[(key, val x)]]) = Suc n" using Cons.prems by simp
    from Cons.IH [OF this, of "[]"] step Nil show ?thesis by simp
  next
    case (Cons item rest)
    with Cons.prems have step: "assign_field (map Some (pre @ items)) n key (val x)
        = map Some ((pre @ [obj_set item key (val x)]) @ rest)"
      by (simp add: assign_field_def array_get_def array_set_def nth_append list_update_append)
    have "length (pre @ [obj_set item key (val x)]) = Suc n" using Cons.prems by simp
    from Cons.IH [OF this, of rest] step Cons show ?thesis by simp
  qed
qed


lemma fallback_field_readable:
  assumes "\<forall>e \<in> set elements. getElementValue h (Some e) (attribute_of lists' key)
              = Inr (value_of h e (attribute_of lists' key))"
  shows "fallback_field h lists' (key, elements) (map Some items)
     = Inr (map Some (zip_field key
          (map (\<lambda>e. value_of h e (attribute_of lists' key)) elements) items))"
proof -
  have "fold_fault (\<lambda>(index, element) rs.
                   case getElementValue h (Some element) (attribute_of lists' key) of
                     Inl f \<Rightarrow> Inl f
                   | Inr v \<Rightarrow> Inr (assign_field rs index key v))
                (enumerate 0 elements) (map Some items)
      = Inr (fold (\<lambda>(index, element) rs.
                     assign_field rs index key (value_of h element (attribute_of lists' key)))
                  (enumerate 0 elements) (map Some items))"
  proof (rule fold_fault_all, intro ballI allI)
    fix x a assume "x \<in> set (enumerate 0 elements)"
    then have "fst x < length elements \<and> elements ! fst x = snd x"
      by (simp add: in_set_enumerate_eq)
    then have "snd x \<in> set elements" using nth_mem [of "fst x" elements] by auto
    with assms show "(case x of (index, element) \<Rightarrow> \<lambda>rs.
                   case getElementValue h (Some element) (attribute_of lists' key) of
                     Inl f \<Rightarrow> Inl f
                   | Inr v \<Rightarrow> Inr (assign_field rs index key v)) a
        = Inr ((case x of (index, element) \<Rightarrow> \<lambda>rs.
                     assign_field rs index key (value_of h element (attribute_of lists' key))) a)"
      by (cases x) simp
  qed
  with assign_loop [of "[]" 0 key "\<lambda>e. value_of h e (attribute_of lists' key)" elements items]
  show ?thesis by (simp add: fallback_field_def)
qed

lemma fallback_field_faults:
  assumes "e \<in> set elements"
    and "getElementValue h (Some e) (attribute_of lists' key) = Inl f"
  shows "\<exists>f'. fallback_field h lists' (key, elements) results = Inl f'"
proof -
  from assms(1) obtain i where "i < length elements" "elements ! i = e"
    by (auto simp: in_set_conv_nth)
  then have "(i, e) \<in> set (enumerate 0 elements)"
    by (simp add: in_set_enumerate_eq)
  with assms(2) have "\<exists>x \<in> set (enumerate 0 elements). \<forall>a. \<exists>e'.
      (case x of (index, element) \<Rightarrow> \<lambda>rs.
                   case getElementValue h (Some element) (attribute_of lists' key) of
                     Inl f \<Rightarrow> Inl f
                   | Inr v \<Rightarrow> Inr (assign_field rs index key v)) a = Inl e'"
    by (intro bexI [of _ "(i, e)"]) simp_all
  from fold_fault_faults [OF this] show ?thesis by (simp add: fallback_field_def)
qed

lemma fallback_fold_readable:
  assumes "\<forall>(key, elements) \<in> set found. \<forall>e \<in> set elements.
      getElementValue h (Some e) (attribute_of lists' key) = Inr (value_of h e (attribute_of lists' key))"
  shows "fold_fault (fallback_field h lists') found (map Some items)
     = Inr (map Some (fold (\<lambda>(key, vs) items. zip_field key vs items)
         (map (\<lambda>(key, elements).
                 (key, map (\<lambda>e. value_of h e (attribute_of lists' key)) elements))
              found) items))"
  using assms
proof (induction found arbitrary: items)
  case Nil
  then show ?case by simp
next
  case (Cons f found)
  obtain key elements where f: "f = (key, elements)" by (cases f)
  from Cons.prems f have
    "\<forall>e \<in> set elements. getElementValue h (Some e) (attribute_of lists' key)
              = Inr (value_of h e (attribute_of lists' key))" by simp
  from fallback_field_readable [OF this] Cons.prems show ?case
    by (simp add: f Cons.IH)
qed


text \<open>The items after all the fields are the columns of the lists of values.\<close>

lemma length_zip_field: "length (zip_field k vs items) = max (length vs) (length items)"
  by (induction k vs items rule: zip_field.induct) simp_all

lemma nth_zip_field:
  "i < max (length vs) (length items) \<Longrightarrow>
   zip_field k vs items ! i
     = (if i < length vs then obj_set (if i < length items then items ! i else []) k (vs ! i)
        else items ! i)"
proof (induction k vs items arbitrary: i rule: zip_field.induct)
  case (1 k items)
  then show ?case by simp
next
  case (2 k v vs)
  then show ?case by (cases i) simp_all
next
  case (3 k v vs item items)
  then show ?case by (cases i) simp_all
qed

lemma widest_snoc: "widest (kvs @ [(k, vs)]) = max (length vs) (widest kvs)"
  by (simp add: widest_def)

lemma column_snoc:
  "column (kvs @ [(k, vs)]) i = column kvs i @ (if i < length vs then [(k, vs ! i)] else [])"
  by (simp add: column_def)

lemma column_keys: "fst ` set (column kvs i) \<subseteq> fst ` set kvs"
  by (force simp: column_def split: if_splits)

lemma column_beyond: "widest kvs \<le> i \<Longrightarrow> column kvs i = []"
proof (induction kvs rule: rev_induct)
  case Nil
  then show ?case by (simp add: column_def)
next
  case (snoc kv kvs)
  obtain k vs where kv: "kv = (k, vs)" by (cases kv)
  from snoc show ?case by (simp add: kv widest_snoc column_snoc)
qed

lemma column_within: "i < widest kvs \<Longrightarrow> column kvs i \<noteq> []"
proof (induction kvs rule: rev_induct)
  case Nil
  then show ?case by (simp add: widest_def)
next
  case (snoc kv kvs)
  obtain k vs where kv: "kv = (k, vs)" by (cases kv)
  from snoc show ?case by (auto simp: kv widest_snoc column_snoc)
qed

lemma zipped_columns:
  "distinct (map fst kvs) \<Longrightarrow> zipped kvs = map (column kvs) [0..<widest kvs]"
proof (induction kvs rule: rev_induct)
  case Nil
  then show ?case by (simp add: zipped_def widest_def)
next
  case (snoc kv kvs)
  obtain k vs where kv: "kv = (k, vs)" by (cases kv)
  from snoc.prems have d: "distinct (map fst kvs)" and fresh: "k \<notin> fst ` set kvs"
    by (simp_all add: kv)
  from snoc.IH [OF d] have IH: "zipped kvs = map (column kvs) [0..<widest kvs]" .
  have z: "zipped (kvs @ [(k, vs)]) = zip_field k vs (zipped kvs)"
    by (simp add: zipped_def)
  show ?case unfolding kv
  proof (rule nth_equalityI)
    show "length (zipped (kvs @ [(k, vs)]))
        = length (map (column (kvs @ [(k, vs)])) [0..<widest (kvs @ [(k, vs)])])"
      by (simp add: z length_zip_field IH widest_snoc)
  next
    fix i assume "i < length (zipped (kvs @ [(k, vs)]))"
    then have i: "i < max (length vs) (widest kvs)"
      by (simp add: z length_zip_field IH)
    have fr: "k \<notin> fst ` set (column kvs i)" using fresh column_keys [of kvs i] by blast
    have "zip_field k vs (zipped kvs) ! i = column kvs i @ (if i < length vs then [(k, vs ! i)] else [])"
    proof (cases "i < length vs")
      case True
      have "(if i < widest kvs then map (column kvs) [0..<widest kvs] ! i else []) = column kvs i"
        by (simp add: column_beyond)
      with True i fr show ?thesis
        by (simp add: nth_zip_field IH obj_set_fresh)
    next
      case False
      with i show ?thesis by (simp add: nth_zip_field IH)
    qed
    with i show "zipped (kvs @ [(k, vs)]) ! i
        = map (column (kvs @ [(k, vs)])) [0..<widest (kvs @ [(k, vs)])] ! i"
      by (simp add: z column_snoc widest_snoc)
  qed
qed


lemma attribute_of_member:
  "distinct (map fst lists') \<Longrightarrow> (key, c) \<in> set lists' \<Longrightarrow> attribute_of lists' key = attribute c"
  by (simp add: attribute_of_def)

lemma drop_empty: 
  "concat (map (\<lambda>r. case r of None \<Rightarrow> [] | Some result \<Rightarrow> if length result > 0 then [result] else [])
               (map Some items))
     = filter (\<lambda>item. item \<noteq> []) items"
  by (induction items) simp_all


text \<open>
  The fallback is the positional zipping when every value can be read, and a fault
  when one cannot.
\<close>

lemma found_elements:
  assumes "\<forall>(key, c) \<in> set lists'. findAllElements h c = Inr (elements_of h c)"
  shows "map_fault (\<lambda>(key, c). case findAllElements h c of
                                    Inl f \<Rightarrow> Inl f
                                  | Inr elements \<Rightarrow> Inr (key, elements)) lists'
     = Inr (map (\<lambda>(key, c). (key, elements_of h c)) lists')"
  by (rule map_fault_all) (use assms in auto)

lemma fallback_positional_zip:
  assumes d: "distinct (map fst lists')"
    and r: "\<forall>(key, c) \<in> set lists'. findAllElements h c = Inr (elements_of h c)"
    and v: "values_readable h lists'"
  shows "fallback h lists' = Inr (positional_zip h lists')"
proof -
  define kvs where "kvs = map (\<lambda>(key, c).
      (key, map (\<lambda>e. value_of h e (attribute_of lists' key)) (elements_of h c))) lists'"
  have keys: "map fst kvs = map fst lists'"
    by (simp add: kvs_def case_prod_unfold comp_def)
  have w: "widest kvs = longest h lists'"
    by (simp add: widest_def longest_def kvs_def case_prod_unfold comp_def)
  have col: "column kvs i = zip_item h lists' i" for i
  proof -
    have "map (\<lambda>(key, vs). if i < length vs then [(key, vs ! i)] else []) kvs
        = map (\<lambda>(key, c).
                    if i < length (elements_of h c)
                    then [(key, value_of h (elements_of h c ! i) (attribute c))]
                    else []) lists'"
      unfolding kvs_def map_map
      by (rule map_cong) (auto simp: attribute_of_member [OF d])
    then show ?thesis by (simp add: column_def zip_item_def)
  qed
  have "\<forall>(key, elements) \<in> set (map (\<lambda>(key, c). (key, elements_of h c)) lists').
      \<forall>e \<in> set elements.
        getElementValue h (Some e) (attribute_of lists' key)
          = Inr (value_of h e (attribute_of lists' key))"
    using readable_value [OF v] by (auto simp: attribute_of_member [OF d])
  from fallback_fold_readable [OF this, of "[]"]
  have f: "fold_fault (fallback_field h lists') (map (\<lambda>(key, c). (key, elements_of h c)) lists') []
      = Inr (map Some (zipped kvs))"
    by (simp add: zipped_def kvs_def case_prod_unfold comp_def)
  have "fallback h lists'
      = Inr (concat (map (\<lambda>r. case r of None \<Rightarrow> [] | Some result \<Rightarrow> if length result > 0 then [result] else [])
                    (map Some (zipped kvs))))"
    unfolding fallback_def found_elements [OF r] sum.case f by (rule refl)
  also have "concat (map (\<lambda>r. case r of None \<Rightarrow> [] | Some result \<Rightarrow> if length result > 0 then [result] else [])
                    (map Some (zipped kvs))) = filter (\<lambda>item. item \<noteq> []) (zipped kvs)"
    by (rule drop_empty)
  also have "zipped kvs = map (zip_item h lists') [0..<longest h lists']"
    using zipped_columns [of kvs] d by (simp add: keys w col)
  finally show ?thesis by (simp add: positional_zip_def)
qed

lemma fallback_faults:
  assumes d: "distinct (map fst lists')"
    and r: "\<forall>(key, c) \<in> set lists'. findAllElements h c = Inr (elements_of h c)"
    and v: "\<not> values_readable h lists'"
  shows "\<exists>f. fallback h lists' = Inl f"
proof -
  from unreadable_value [OF v] obtain key c e f where
    m: "(key, c) \<in> set lists'" and e: "e \<in> set (elements_of h c)"
    and g: "getElementValue h (Some e) (attribute c) = Inl f"
    by auto
  from g have g': "getElementValue h (Some e) (attribute_of lists' key) = Inl f"
    by (simp add: attribute_of_member [OF d m])
  have "\<forall>a. \<exists>f'. fallback_field h lists' (key, elements_of h c) a = Inl f'"
    using fallback_field_faults [OF e g'] by blast
  moreover from m have "(key, elements_of h c) \<in> set (map (\<lambda>(key, c). (key, elements_of h c)) lists')"
    by force
  ultimately have "\<exists>x \<in> set (map (\<lambda>(key, c). (key, elements_of h c)) lists').
      \<forall>a. \<exists>f'. fallback_field h lists' x a = Inl f'"
    by blast
  from fold_fault_faults [OF this, of "[]"] obtain f' where
    "fold_fault (fallback_field h lists') (map (\<lambda>(key, c). (key, elements_of h c)) lists') [] = Inl f'"
    by blast
  then show ?thesis
    unfolding fallback_def found_elements [OF r] sum.case by simp
qed

lemma positional_zip_keeps_all:
  "positional_zip h lists' = map (zip_item h lists') [0..<longest h lists']"
proof -
  have "i < longest h lists' \<Longrightarrow> zip_item h lists' i \<noteq> []" for i
  proof (induction lists' rule: rev_induct)
    case Nil
    then show ?case by (simp add: longest_def)
  next
    case (snoc kc lists')
    obtain k c where kc: "kc = (k, c)" by (cases kc)
    from snoc show ?case by (auto simp: kc longest_def zip_item_def)
  qed
  then show ?thesis by (simp add: positional_zip_def)
qed

lemma zip_item_lookup:
  "distinct (map fst lists') \<Longrightarrow> (key, c) \<in> set lists' \<Longrightarrow>
   map_of (zip_item h lists' i) key
     = (if i < length (elements_of h c)
        then Some (value_of h (elements_of h c ! i) (attribute c)) else None)"
proof (induction lists')
  case Nil
  then show ?case by simp
next
  case (Cons kc lists')
  obtain k' c' where kc: "kc = (k', c')" by (cases kc)
  have tail: "zip_item h (kc # lists') i
      = (if i < length (elements_of h c')
         then [(k', value_of h (elements_of h c' ! i) (attribute c'))] else [])
        @ zip_item h lists' i"
    by (simp add: zip_item_def kc)
  show ?case
  proof (cases "key = k'")
    case True
    with Cons.prems kc have c: "c = c'" by (auto simp: image_iff)
    have "key \<notin> fst ` set (zip_item h lists' i)"
      using Cons.prems kc True by (force simp: zip_item_def split: if_splits)
    then have "map_of (zip_item h lists' i) key = None"
      by (simp add: map_of_eq_None_iff)
    with True c show ?thesis by (simp add: tail)
  next
    case False
    with Cons.prems kc have "(key, c) \<in> set lists'" "distinct (map fst lists')" by auto
    from Cons.IH [OF this(2) this(1)] False show ?thesis by (simp add: tail)
  qed
qed

lemma mbe_grouping_resolves:
  "mbe_grouping h lists' = Inr results \<Longrightarrow> (key, c) \<in> set lists' \<Longrightarrow>
   findAllElements h c = Inr (elements_of h c)"
proof -
  assume g: "mbe_grouping h lists' = Inr results" and m: "(key, c) \<in> set lists'"
  from g obtain k where "getSeedKey h lists' = Inr k"
    by (cases "getSeedKey h lists'") (simp_all add: mbe_grouping_def)
  from getSeedKey_resolves [OF this m] show ?thesis .
qed

text \<open>
  C5. When the MBE grouping is computed and leaves an \<open>undefined\<close> value in some
  item, its result is discarded and \<open>scrapeSchema\<close> is the fallback. Every field has
  been resolved by then. If the value of every resolved element of every field can be
  read, \<open>scrapeSchema\<close> returns the positional zipping of the fields' lists; if the
  \<open>URL\<close> constructor refuses the \<open>href\<close> or \<open>src\<close> of one of them, also of one
  that the MBE grouping never read, \<open>scrapeSchema\<close> raises a fault. Every item of the
  zipping has a field, so none is dropped. In item \<open>i\<close> a field is present, with the
  value of its element at index \<open>i\<close>, exactly when its list reaches index \<open>i\<close>: the
  items that lack a field are those beyond the end of its list. The keys of the mapping
  are distinct, as the keys of an object are.
\<close>

theorem schema_fallback_zip:
  assumes "distinct (map fst lists')"
    and "mbe_grouping h lists' = Inr results"
    and "has_undefined results"
  shows "(values_readable h lists' \<longrightarrow> scrapeSchema h lists' = Inr (positional_zip h lists'))
         \<and> (\<not> values_readable h lists' \<longrightarrow> (\<exists>f. scrapeSchema h lists' = Inl f))
         \<and> positional_zip h lists' = map (zip_item h lists') [0..<longest h lists']
         \<and> (\<forall>(key, c) \<in> set lists'.
               findAllElements h c = Inr (elements_of h c)
               \<and> (\<forall>i. map_of (zip_item h lists' i) key
                        = (if i < length (elements_of h c)
                           then Some (value_of h (elements_of h c ! i) (attribute c))
                           else None))
               \<and> (values_readable h lists' \<longrightarrow>
                    (\<forall>e \<in> set (elements_of h c).
                        getElementValue h (Some e) (attribute c)
                          = Inr (value_of h e (attribute c)))))"
proof -
  have r: "\<forall>(key, c) \<in> set lists'. findAllElements h c = Inr (elements_of h c)"
    using mbe_grouping_resolves [OF assms(2)] by auto
  have s: "scrapeSchema h lists' = fallback h lists'"
    using assms(2,3) by (simp add: scrapeSchema_def)
  have 1: "values_readable h lists' \<longrightarrow> scrapeSchema h lists' = Inr (positional_zip h lists')"
    using fallback_positional_zip [OF assms(1) r] s by simp
  have 2: "\<not> values_readable h lists' \<longrightarrow> (\<exists>f. scrapeSchema h lists' = Inl f)"
    using fallback_faults [OF assms(1) r] s by simp
  have 4: "\<forall>(key, c) \<in> set lists'.
               findAllElements h c = Inr (elements_of h c)
               \<and> (\<forall>i. map_of (zip_item h lists' i) key
                        = (if i < length (elements_of h c)
                           then Some (value_of h (elements_of h c ! i) (attribute c))
                           else None))
               \<and> (values_readable h lists' \<longrightarrow>
                    (\<forall>e \<in> set (elements_of h c).
                        getElementValue h (Some e) (attribute c)
                          = Inr (value_of h e (attribute c))))"
  proof (intro ballI, clarify, intro conjI allI impI ballI)
    fix key c assume m: "(key, c) \<in> set lists'"
    from r m show "findAllElements h c = Inr (elements_of h c)" by auto
    show "map_of (zip_item h lists' i) key
                        = (if i < length (elements_of h c)
                           then Some (value_of h (elements_of h c ! i) (attribute c))
                           else None)" for i
      by (rule zip_item_lookup [OF assms(1) m])
    show "getElementValue h (Some e) (attribute c) = Inr (value_of h e (attribute c))"
      if "values_readable h lists'" "e \<in> set (elements_of h c)" for e
      by (rule readable_value [OF that(1) m that(2)])
  qed
  from 1 2 positional_zip_keeps_all 4 show ?thesis by blast
qed


text \<open>The shelf of two products: the second has no price, and the zipping leaves it without one.\<close>

lemmas schema_eval =
  mbe_grouping_def getSeedKey_def findAllElements_def qsa_def getMBEs_def isUniqueChild_def
  mbeResults_def omap_def mbe_value_def getElementValue_def absolute_def trimmed_def trim_def
  is_space_def elements_of_def value_of_def Let_def

lemmas ex_shelf_eval =
  ex_shelf_def ex_shelf3_def blank_host_def ex_title_def ex_price_def ex_product_def
  ex_heading_def ex_product3_def ex_price3_def ex_title3_def ex_nodes

lemma ex_shelf_grouping:
  "mbe_grouping ex_shelf ex_schema
     = Inr [[(''title'', Str ''A''), (''price'', Str ''1'')],
            [(''title'', Str ''B''), (''price'', Undefined)]]"
  by (simp add: schema_eval ex_shelf_eval ex_schema_def)

lemma ex_shelf_readable: "values_readable ex_shelf ex_schema"
  by (simp add: values_readable_def schema_eval ex_shelf_eval ex_schema_def)

lemma ex_shelf_zip:
  "positional_zip ex_shelf ex_schema
     = [[(''title'', Str ''A''), (''price'', Str ''1'')], [(''title'', Str ''B'')]]"
  by (simp add: positional_zip_def longest_def zip_item_def upt_rec schema_eval ex_shelf_eval
        ex_schema_def)

theorem schema_fallback_zip_witness:
  "distinct (map fst ex_schema)
   \<and> mbe_grouping ex_shelf ex_schema
       = Inr [[(''title'', Str ''A''), (''price'', Str ''1'')],
              [(''title'', Str ''B''), (''price'', Undefined)]]
   \<and> has_undefined [[(''title'', Str ''A''), (''price'', Str ''1'')],
              [(''title'', Str ''B''), (''price'', Undefined)]]
   \<and> values_readable ex_shelf ex_schema
   \<and> scrapeSchema ex_shelf ex_schema
       = Inr [[(''title'', Str ''A''), (''price'', Str ''1'')], [(''title'', Str ''B'')]]"
proof -
  have d: "distinct (map fst ex_schema)" by (simp add: ex_schema_def)
  have u: "has_undefined [[(''title'', Str ''A''), (''price'', Str ''1'')],
            [(''title'', Str ''B''), (''price'', Undefined)]]"
    by (simp add: has_undefined_def)
  from schema_fallback_zip [OF d ex_shelf_grouping u] ex_shelf_readable
  have "scrapeSchema ex_shelf ex_schema = Inr (positional_zip ex_shelf ex_schema)" by blast
  with d u ex_shelf_readable show ?thesis by (simp only: ex_shelf_zip ex_shelf_grouping simp_thms)
qed

text \<open>
  On the shelf of three products the one without a price is the second, but the
  zipping gives it the price of the third, and the third is left without a price: the
  item that lacks the field is the last one, not the deficient one.
\<close>

lemmas fallback_eval =
  scrapeSchema_def has_undefined_def fallback_def fallback_field_def attribute_of_def
  assign_field_def array_get_def array_set_def enumerate_eq_zip upt_rec

theorem deficient_item_counterexample:
  "mbe_grouping ex_shelf3 ex_schema
     = Inr [[(''title'', Str ''A''), (''price'', Str ''1'')],
            [(''title'', Str ''B''), (''price'', Undefined)],
            [(''title'', Str ''C''), (''price'', Str ''3'')]]
   \<and> scrapeSchema ex_shelf3 ex_schema
       = Inr [[(''title'', Str ''A''), (''price'', Str ''1'')],
              [(''title'', Str ''B''), (''price'', Str ''3'')],
              [(''title'', Str ''C'')]]"
proof -
  have g: "mbe_grouping ex_shelf3 ex_schema
     = Inr [[(''title'', Str ''A''), (''price'', Str ''1'')],
            [(''title'', Str ''B''), (''price'', Undefined)],
            [(''title'', Str ''C''), (''price'', Str ''3'')]]"
    by (simp add: schema_eval ex_shelf_eval ex_schema_def)
  have f: "fallback ex_shelf3 ex_schema
       = Inr [[(''title'', Str ''A''), (''price'', Str ''1'')],
              [(''title'', Str ''B''), (''price'', Str ''3'')],
              [(''title'', Str ''C'')]]"
    by (simp add: fallback_eval schema_eval ex_shelf_eval ex_schema_def)
  show ?thesis by (simp add: g f scrapeSchema_def has_undefined_def)
qed

text \<open>
  The first product has two links and the second none. The MBE grouping reads the first
  link only; the fallback reads the second too, whose reference the \<open>URL\<close>
  constructor refuses.
\<close>

lemma fallback_fault_example:
  "mbe_grouping ex_linked ex_link_schema
     = Inr [[(''title'', Str ''A''), (''link'', Str ''https://example.com/a.html'')],
            [(''title'', Str ''B''), (''link'', Undefined)]]
   \<and> scrapeSchema ex_linked ex_link_schema = Inl TypeError"
proof -
  have g: "mbe_grouping ex_linked ex_link_schema
     = Inr [[(''title'', Str ''A''), (''link'', Str ''https://example.com/a.html'')],
            [(''title'', Str ''B''), (''link'', Undefined)]]"
    by (simp add: schema_eval ex_shelf_eval ex_link_schema_def ex_linked_def ex_link_def
          ex_URL_href_def split_def last_part_def)
  have f: "fallback ex_linked ex_link_schema = Inl TypeError"
    by (simp add: fallback_eval schema_eval ex_shelf_eval ex_link_schema_def ex_linked_def
          ex_link_def ex_URL_href_def split_def last_part_def)
  show ?thesis by (simp add: g f scrapeSchema_def has_undefined_def)
qed

text \<open>
  The walk of a lone seed element ends at the root of its tree: every node on the way
  contains the seed, which is the only one.
\<close>

lemma contains_refl: "contains a a"
  by (induction a a rule: contains.induct) simp_all







lemma root_node_contains: "contains (root_node e) e"
  by (induction e rule: root_node.induct) (auto simp: contains_refl)









text \<open>
  The MBE grouping raises a fault when a selector does not parse, as the shadow notation
  with \<open>shadow\<close> unset, and when the \<open>URL\<close> constructor refuses a reference it reads.
\<close>

lemma shadow_unset_example:
  "scrapeSchema ex_shadow
     [(''label'', \<lparr>selector = ''x-card >> span'', attribute = Some ''innerText'', shadow = False\<rparr>)]
     = Inl SyntaxError"
  by (simp add: scrapeSchema_def schema_eval
        ex_shadow_def blank_host_def ex_widget_def ex_label_def ex_nodes)

lemma unreadable_href_example:
  "scrapeSchema ex_shop
     [(''link'', \<lparr>selector = ''a.broken'', attribute = Some ''href'', shadow = False\<rparr>)]
     = Inl TypeError"
  by (simp add: scrapeSchema_def schema_eval split_def last_part_def
        ex_URL_href_def ex_shop_def blank_host_def ex_a_def ex_broken_def ex_nodes)

end
